theory Spec2Isabelle
  imports Complex_Main
begin

section \<open>Pearson residual normalization (\<open>scanpy/experimental/pp/_normalization.py\<close>)\<close>

subsection \<open>Numbers\<close>

text \<open>
  The values numpy computes with are IEEE 754 binary64 numbers (float64). A value is NaN,
  one of the two infinities, or finite; the two zeros are not told apart. An operation on
  finite values gives the exact result rounded to the nearest float64, ties to the even
  significand, and an infinity when the rounded result is out of range. On the special
  values the operations follow IEEE 754: NaN is absorbing, \<open>inf - inf\<close>, \<open>0 * inf\<close>,
  \<open>inf / inf\<close> and \<open>0 / 0\<close> are NaN, a nonzero finite value divided by zero is an
  infinity, a finite value divided by an infinity is zero, and every comparison with NaN
  is false.
\<close>

datatype float64 = NaN | NInf | Fin real | PInf

text \<open>
  Rounding to the nearest integer, ties to the even one.
\<close>

definition round_even :: "real \<Rightarrow> int" where
  "round_even r =
    (let f = \<lfloor>r\<rfloor> in
     if r - of_int f < 1 / 2 then f
     else if 1 / 2 < r - of_int f then f + 1
     else if even f then f else f + 1)"

text \<open>
  The binary exponent of a real number as a float64 holds it: that of its leading bit,
  and \<open>-1022\<close> for the subnormal numbers and zero. The unit in the last place has 52
  bits below the leading one. \<open>nearest64\<close> is the multiple of that unit nearest to the
  number, and \<open>round64\<close> the float64 an exact result is rounded to: from \<open>2^1024\<close> on
  the rounded result is out of range, an overflow.
\<close>

definition exponent64 :: "real \<Rightarrow> int" where
  "exponent64 x = (if x = 0 then - 1022 else max \<lfloor>log 2 \<bar>x\<bar>\<rfloor> (- 1022))"

definition ulp64 :: "real \<Rightarrow> real" where
  "ulp64 x = 2 powr (of_int (exponent64 x) - 52)"

definition nearest64 :: "real \<Rightarrow> real" where
  "nearest64 x = ulp64 x * of_int (round_even (x / ulp64 x))"

definition round64 :: "real \<Rightarrow> float64" where
  "round64 x =
    (let y = nearest64 x in
     if 2 powr 1024 \<le> \<bar>y\<bar> then (if y < 0 then NInf else PInf) else Fin y)"

fun fneg :: "float64 \<Rightarrow> float64" where
  "fneg NaN = NaN"
| "fneg NInf = PInf"
| "fneg (Fin a) = Fin (- a)"
| "fneg PInf = NInf"

fun fadd :: "float64 \<Rightarrow> float64 \<Rightarrow> float64" where
  "fadd (Fin a) (Fin b) = round64 (a + b)"
| "fadd NaN _ = NaN"
| "fadd _ NaN = NaN"
| "fadd PInf NInf = NaN"
| "fadd NInf PInf = NaN"
| "fadd PInf _ = PInf"
| "fadd _ PInf = PInf"
| "fadd NInf _ = NInf"
| "fadd _ NInf = NInf"

definition fsub :: "float64 \<Rightarrow> float64 \<Rightarrow> float64" where
  "fsub a b = fadd a (fneg b)"

text \<open>The sign of a value that is not NaN: \<open>-1\<close>, \<open>0\<close> or \<open>1\<close>.\<close>

fun fsign :: "float64 \<Rightarrow> int" where
  "fsign NaN = 0"
| "fsign NInf = - 1"
| "fsign (Fin a) = (if a < 0 then - 1 else if a = 0 then 0 else 1)"
| "fsign PInf = 1"

definition of_sign :: "int \<Rightarrow> float64" where
  "of_sign s = (if s < 0 then NInf else if s = 0 then NaN else PInf)"

fun fmul :: "float64 \<Rightarrow> float64 \<Rightarrow> float64" where
  "fmul (Fin a) (Fin b) = round64 (a * b)"
| "fmul NaN _ = NaN"
| "fmul _ NaN = NaN"
| "fmul x y = of_sign (fsign x * fsign y)"

fun fdiv :: "float64 \<Rightarrow> float64 \<Rightarrow> float64" where
  "fdiv (Fin a) (Fin b) = (if b = 0 then of_sign (fsign (Fin a)) else round64 (a / b))"
| "fdiv NaN _ = NaN"
| "fdiv _ NaN = NaN"
| "fdiv (Fin a) _ = Fin 0"
| "fdiv x (Fin b) = of_sign (fsign x * (if b < 0 then - 1 else 1))"
| "fdiv _ _ = NaN"

fun fsqrt :: "float64 \<Rightarrow> float64" where
  "fsqrt (Fin a) = (if a < 0 then NaN else round64 (sqrt a))"
| "fsqrt PInf = PInf"
| "fsqrt _ = NaN"

fun flt :: "float64 \<Rightarrow> float64 \<Rightarrow> bool" where
  "flt (Fin a) (Fin b) = (a < b)"
| "flt NaN _ = False"
| "flt _ NaN = False"
| "flt _ NInf = False"
| "flt NInf _ = True"
| "flt PInf _ = False"
| "flt _ PInf = True"

fun fle :: "float64 \<Rightarrow> float64 \<Rightarrow> bool" where
  "fle (Fin a) (Fin b) = (a \<le> b)"
| "fle NaN _ = False"
| "fle _ NaN = False"
| "fle NInf _ = True"
| "fle _ PInf = True"
| "fle _ _ = False"

text \<open>
  A sum of float64 values. numpy does not promise the order in which a reduction adds its
  terms (it adds a short run from the first term to the last, and a long one in blocks);
  here the terms are added from the first to the last, starting from zero. The general
  properties below hold for any order, and the matrices evaluated have at most two rows
  and two columns.
\<close>

definition fsum :: "float64 list \<Rightarrow> float64" where
  "fsum xs = foldl fadd (Fin 0) xs"

subsection \<open>Matrices\<close>

text \<open>
  A two-dimensional array is the list of its rows; \<open>X.shape[0]\<close> is the number of
  rows. The sparse and the chunked (Dask) backends hold the same entries and are not
  told apart: the branch of the source on \<open>isinstance(X, DaskArray)\<close> computes the same
  elementwise expressions on both sides.
\<close>

type_synonym ndarray = "float64 list list"

definition n_cols :: "ndarray \<Rightarrow> nat" where
  "n_cols X = (case X of [] \<Rightarrow> 0 | r # _ \<Rightarrow> length r)"

definition rectangular :: "ndarray \<Rightarrow> bool" where
  "rectangular X = list_all (\<lambda>r. length r = n_cols X) X"

text \<open>
  Modelled from the spec: \<open>axis_sum\<close> of \<open>scanpy._utils\<close> is not among the sources;
  the spec has ``\<open>sums_genes\<close> = column sums''. \<open>axis_sum0\<close> is \<open>axis_sum(X, axis=0)\<close>:
  one sum for each column, also when the matrix has no entries in it.
\<close>

definition axis_sum0 :: "ndarray \<Rightarrow> float64 list" where
  "axis_sum0 X = map (\<lambda>j. fsum (map (\<lambda>r. r ! j) X)) [0..<n_cols X]"

text \<open>
  Modelled from the spec: \<open>axis_sum(X, axis=1)\<close>, whose code is not among the sources; the
  spec has ``\<open>sums_cells\<close> = row sums''.
\<close>

definition axis_sum1 :: "ndarray \<Rightarrow> float64 list" where
  "axis_sum1 X = map fsum X"

text \<open>
  \<open>sums_cells @ sums_genes\<close> multiplies the column vector \<open>sums_cells.reshape(-1, 1)\<close>
  with the row vector \<open>sums_genes.reshape(1, -1)\<close>: entry \<open>(i, j)\<close> is the product of
  the two entries.
\<close>

definition matmul_col_row :: "float64 list \<Rightarrow> float64 list \<Rightarrow> ndarray" where
  "matmul_col_row c r = map (\<lambda>a. map (\<lambda>b. fmul a b) r) c"

text \<open>
  Modelled from the spec: \<open>clip_array\<close> of \<open>scanpy._utils\<close> is not among the sources;
  the spec has ``clip element-wise to \<open>[-clip, +clip]\<close>''. \<open>clip_value\<close> clips one
  entry: a value below the lower bound becomes that bound, a value above the upper bound
  becomes that bound, and a NaN entry stays NaN.
\<close>

definition clip_value :: "float64 \<Rightarrow> float64 \<Rightarrow> float64 \<Rightarrow> float64" where
  "clip_value lo hi x = (if flt x lo then lo else if flt hi x then hi else x)"

text \<open>
  Modelled from the spec: \<open>clip_array(residuals, -clip, clip)\<close>, element by element.
\<close>

definition clip_array :: "ndarray \<Rightarrow> float64 \<Rightarrow> float64 \<Rightarrow> ndarray" where
  "clip_array R lo hi = map (map (clip_value lo hi)) R"

text \<open>
  Modelled from the spec: \<open>check_nonnegative_integers\<close> of \<open>scanpy._utils\<close> is not among
  the sources; the spec has ``any entry of \<open>X\<close> is not a nonnegative integer''. An entry
  is a nonnegative integer when it is finite, at least zero and whole.
\<close>

fun nonnegative_integer :: "float64 \<Rightarrow> bool" where
  "nonnegative_integer (Fin a) = (0 \<le> a \<and> of_int (floor a) = a)"
| "nonnegative_integer _ = False"

text \<open>
  Modelled from the spec: \<open>check_nonnegative_integers(X)\<close> holds when every entry of \<open>X\<close>
  is a nonnegative integer.
\<close>

definition check_nonnegative_integers :: "ndarray \<Rightarrow> bool" where
  "check_nonnegative_integers X = list_all (list_all nonnegative_integer) X"

subsection \<open>Errors and effects\<close>

datatype error = ValueError string | KeyError string

text \<open>
  What a call does besides returning is recorded in the order it happens: a copy of the
  matrix or of the AnnData object, a warning, a line of the log, and each pass an
  operation makes over the matrix (named after the operation).
\<close>

datatype event =
    Copy_X
  | Copy_adata
  | Warn string
  | Info string
  | Pass string

subsection \<open>\<open>_pearson_residuals\<close>\<close>

text \<open>
  \<open>clip\<close> is \<open>None\<close> or a number; \<open>copy\<close> is the Python value the caller passes, tested
  for truth (\<open>X.copy() if copy else X\<close>): an integer, of which \<open>False\<close> is \<open>0\<close> and
  \<open>True\<close> is \<open>1\<close>. The result is the outcome (the exception raised, or the residuals)
  and the events up to it.
\<close>

text \<open>
  One entry of \<open>diff / np.sqrt(mu + mu**2 / theta)\<close>, for the entry \<open>d\<close> of \<open>diff\<close> and
  the entry \<open>m\<close> of \<open>mu\<close>; the square is the product of \<open>m\<close> with itself.
\<close>

definition residual :: "float64 \<Rightarrow> float64 \<Rightarrow> float64 \<Rightarrow> float64" where
  "residual theta d m = fdiv d (fsqrt (fadd m (fdiv (fmul m m) theta)))"

definition theta_error :: error where
  "theta_error = ValueError ''Pearson residuals require theta > 0''"

definition clip_error :: error where
  "clip_error = ValueError ''Pearson residuals require `clip>=0` or `clip=None`.''"

definition nonintegers_warning :: string where
  "nonintegers_warning =
    ''`normalize_pearson_residuals()` expects raw count data, but non-integers were found.''"

text \<open>
  The clip in force: \<open>np.sqrt(n)\<close> for \<open>n = X.shape[0]\<close> when \<open>clip is None\<close>, the
  integer \<open>n\<close> being made a float64 first.
\<close>

definition clip_bound :: "ndarray \<Rightarrow> float64 option \<Rightarrow> float64" where
  "clip_bound X clip =
    (case clip of None \<Rightarrow> fsqrt (round64 (real (length X))) | Some c \<Rightarrow> c)"

definition pearson_residuals ::
  "ndarray \<Rightarrow> float64 \<Rightarrow> float64 option \<Rightarrow> bool \<Rightarrow> int \<Rightarrow> (error + ndarray) \<times> event list" where
  "pearson_residuals X theta clip check_values copy =
    (let t0 = (if copy \<noteq> 0 then [Copy_X] else []) in
     if fle theta (Fin 0) then
       (Inl theta_error, t0)
     else
       let clip' = clip_bound X clip in
       if flt clip' (Fin 0) then
         (Inl clip_error, t0)
       else
         let t1 = (if check_values then
                     Pass ''check_nonnegative_integers'' #
                     (if \<not> check_nonnegative_integers X then [Warn nonintegers_warning]
                      else [])
                   else []);
             sums_genes = axis_sum0 X;
             sums_cells = axis_sum1 X;
             sum_total = fsum sums_genes;
             mu = map (map (\<lambda>p. fdiv p sum_total)) (matmul_col_row sums_cells sums_genes);
             diff = map2 (map2 fsub) X mu;
             residuals = map2 (map2 (residual theta)) diff mu;
             residuals = clip_array residuals (fneg clip') clip'
         in (Inr residuals,
             t0 @ t1 @ [Pass ''axis_sum'', Pass ''axis_sum'', Pass ''residuals'', Pass ''clip_array'']))"

subsection \<open>The data store\<close>

text \<open>
  The values a Python dictionary of this module holds. A dictionary built by the module
  (\<open>settings_dict\<close>, \<open>results_dict\<close>) is the list of its items in insertion order.
\<close>

datatype pyval =
    PyNone
  | PyFloat float64
  | PyStr string
  | PyArray ndarray
  | PyDict "(string \<times> pyval) list"

text \<open>
  An AnnData object, as far as this module reads and writes it: the matrix \<open>adata.X\<close>,
  the named layers, the unstructured annotations \<open>adata.uns\<close>, and whether the object
  is a view of another one. Objects live in a store and are passed by reference, so that
  the caller's object and a copy of it are two objects; \<open>adata.copy()\<close> allocates a new
  one at the end of the store. A reference a caller holds is always below the length of
  the store.
\<close>

record anndata =
  adata_X :: ndarray
  layers :: "string \<rightharpoonup> ndarray"
  uns :: "string \<rightharpoonup> pyval"
  is_view :: bool

type_synonym ref = nat
type_synonym store = "anndata list"

datatype retval = Ret_None | Ret_adata ref | Ret_dict "(string \<times> pyval) list"

text \<open>
  Modelled from the spec: the AnnData container (\<open>anndata\<close>) is not among the sources;
  the spec treats it as ``an opaque data store with get/set-by-layer operations''.
  \<open>adata.copy()\<close> gives an object of its own with the same matrix, layers and
  annotations, which is no view.
\<close>

definition anndata_copy :: "anndata \<Rightarrow> anndata" where
  "anndata_copy a = a\<lparr>is_view := False\<rparr>"

text \<open>
  Modelled from the spec: \<open>view_to_actual\<close> of \<open>scanpy._utils\<close> is not among the sources and
  the spec does not speak of views; as its name has it, a view is made an object of its
  own (with a warning) and keeps its contents, and any other object is left alone.
\<close>

definition view_to_actual :: "anndata \<Rightarrow> anndata \<times> event list" where
  "view_to_actual a =
    (if is_view a then
       (anndata_copy a, [Warn ''Received a view of an AnnData. Making a copy.''])
     else (a, []))"

text \<open>
  Modelled from the spec: \<open>_get_obs_rep\<close> of \<open>scanpy.get\<close> is not among the sources; the
  core ``reads a matrix from either the store's default slot or a named alternate layer'',
  and a ``named layer absent'' is an error. The default slot is read when no layer is
  named (\<open>layer=None\<close>).
\<close>

definition get_obs_rep :: "anndata \<Rightarrow> string option \<Rightarrow> error + ndarray" where
  "get_obs_rep a layer =
    (case layer of
       None \<Rightarrow> Inr (adata_X a)
     | Some l \<Rightarrow> (case layers a l of None \<Rightarrow> Inl (KeyError l) | Some M \<Rightarrow> Inr M))"

text \<open>
  Modelled from the spec: \<open>_set_obs_rep\<close> of \<open>scanpy.get\<close> is not among the sources; it is
  the ``set-by-layer'' of the store, writing the slot that \<open>_get_obs_rep\<close> reads.
\<close>

definition set_obs_rep :: "anndata \<Rightarrow> ndarray \<Rightarrow> string option \<Rightarrow> anndata" where
  "set_obs_rep a val layer =
    (case layer of
       None \<Rightarrow> a\<lparr>adata_X := val\<rparr>
     | Some l \<Rightarrow> a\<lparr>layers := (layers a)(l \<mapsto> val)\<rparr>)"

subsection \<open>\<open>normalize_pearson_residuals\<close>\<close>

text \<open>
  Python's \<open>~\<close> on a bool is the bitwise complement of the integer it stands for:
  \<open>~True\<close> is \<open>-2\<close> and \<open>~False\<close> is \<open>-1\<close>.
\<close>

definition invert :: "bool \<Rightarrow> int" where
  "invert b = - (if b then 1 else 0) - 1"

definition copy_error :: error where
  "copy_error = ValueError ''`copy=True` cannot be used with `inplace=False`.''"

text \<open>
  \<open>layer if layer else "adata.X"\<close>: a string counts as true when it is not empty.
\<close>

definition computed_on_of :: "string option \<Rightarrow> string" where
  "computed_on_of layer =
    (case layer of
       None \<Rightarrow> ''adata.X''
     | Some l \<Rightarrow> if l \<noteq> [] then l else ''adata.X'')"

definition settings_dict_of :: "float64 \<Rightarrow> float64 option \<Rightarrow> string \<Rightarrow> (string \<times> pyval) list" where
  "settings_dict_of theta clip computed_on =
    [(''theta'', PyFloat theta),
     (''clip'', (case clip of None \<Rightarrow> PyNone | Some c \<Rightarrow> PyFloat c)),
     (''computed_on'', PyStr computed_on)]"

text \<open>
  The call takes the store and the reference \<open>adata\<close> of the caller's object, and gives
  the outcome (the exception raised, or the value returned), the store after the call and
  the events of the call.
\<close>

definition normalize_pearson_residuals ::
  "store \<Rightarrow> ref \<Rightarrow> float64 \<Rightarrow> float64 option \<Rightarrow> bool \<Rightarrow> string option \<Rightarrow> bool \<Rightarrow> bool
    \<Rightarrow> (error + retval) \<times> store \<times> event list" where
  "normalize_pearson_residuals h adata theta clip check_values layer inplace copy =
    (if copy \<and> \<not> inplace then (Inl copy_error, h, [])
     else
       let (h, adata, t) =
             (if copy then (h @ [anndata_copy (h ! adata)], length h, [Copy_adata])
              else (h, adata, []));
           (a, tv) = view_to_actual (h ! adata);
           h = h[adata := a];
           t = t @ tv
       in case get_obs_rep (h ! adata) layer of
            Inl e \<Rightarrow> (Inl e, h, t)
          | Inr X \<Rightarrow>
              let computed_on = computed_on_of layer;
                  t = t @ [Info (''computing analytic Pearson residuals on '' @ computed_on)];
                  (r, tp) = pearson_residuals X theta clip check_values (invert inplace);
                  t = t @ tp
              in case r of
                   Inl e \<Rightarrow> (Inl e, h, t)
                 | Inr residuals \<Rightarrow>
                     let settings_dict = settings_dict_of theta clip computed_on;
                         h = (if inplace then
                                h[adata := (set_obs_rep (h ! adata) residuals layer)
                                   \<lparr>uns := (uns (set_obs_rep (h ! adata) residuals layer))
                                      (''pearson_residuals_normalization'' \<mapsto> PyDict settings_dict)\<rparr>]
                              else h);
                         results_dict = (''X'', PyArray residuals) # settings_dict;
                         t = t @ [Info ''    finished'']
                     in (Inr (if copy then Ret_adata adata
                              else if \<not> inplace then Ret_dict results_dict
                              else Ret_None),
                         h, t))"

subsection \<open>The residual as the spec words it\<close>

text \<open>
  The sums of the spec, each taken on its own: the sum of row \<open>i\<close>, the sum of column
  \<open>j\<close> and the grand sum, and the expected value \<open>mu[i,j]\<close> under the null model. In
  float64 the grand sum depends on the order of its terms: it is the sum of the column
  sums, as \<open>sum_total = sums_genes.sum()\<close> has it.
\<close>

definition row_sum :: "ndarray \<Rightarrow> nat \<Rightarrow> float64" where
  "row_sum X i = fsum (X ! i)"

definition col_sum :: "ndarray \<Rightarrow> nat \<Rightarrow> float64" where
  "col_sum X j = fsum (map (\<lambda>r. r ! j) X)"

definition grand_sum :: "ndarray \<Rightarrow> float64" where
  "grand_sum X = fsum (map (col_sum X) [0..<n_cols X])"

definition expected :: "ndarray \<Rightarrow> nat \<Rightarrow> nat \<Rightarrow> float64" where
  "expected X i j = fdiv (fmul (row_sum X i) (col_sum X j)) (grand_sum X)"

text \<open>
  The size of a value: the absolute value of a finite one, and zero otherwise.
\<close>

fun magnitude :: "float64 \<Rightarrow> real" where
  "magnitude (Fin a) = \<bar>a\<bar>"
| "magnitude _ = 0"

subsection \<open>Example objects\<close>

text \<open>
  A data store of one object for the concrete calls below: a one-by-one count matrix,
  and a layer whose name is the empty string.
\<close>

definition adata0 :: anndata where
  "adata0 = \<lparr>adata_X = [[Fin 3]], layers = Map.empty, uns = Map.empty, is_view = False\<rparr>"

text \<open>
  A matrix with a negative entry: the sum of the first row and the grand sum are
  \<open>2^500\<close> and the sum of the first column is \<open>2^520\<close>, so the expected value of the
  first entry is \<open>2^520\<close>, whose square is out of the range of float64.
\<close>

definition X_large :: ndarray where
  "X_large = [[Fin 0, Fin (2 ^ 500)], [Fin (2 ^ 520), Fin (- (2 ^ 520))]]"

text \<open>
  A matrix of counts whose expected values are all \<open>4\<close>.
\<close>

definition X_small :: ndarray where
  "X_small = [[Fin 8, Fin 0], [Fin 0, Fin 8]]"

definition adata1 :: anndata where
  "adata1 = \<lparr>adata_X = [[Fin 5]], layers = [[] \<mapsto> [[Fin 3]]], uns = Map.empty, is_view = False\<rparr>"

section \<open>Properties\<close>

subsection \<open>Rounding\<close>

lemma round_even_cases: "round_even r = \<lfloor>r\<rfloor> \<or> round_even r = \<lfloor>r\<rfloor> + 1"
  by (simp add: round_even_def Let_def)

lemma round_even_ge: "of_int n \<le> r \<Longrightarrow> n \<le> round_even r"
proof -
  assume "of_int n \<le> r"
  then have "n \<le> \<lfloor>r\<rfloor>" by (simp add: le_floor_iff)
  with round_even_cases [of r] show ?thesis by linarith
qed

lemma round_even_of_int [simp]: "round_even (of_int n) = n"
  by (simp add: round_even_def)

lemma round_even_le: "r \<le> of_int n \<Longrightarrow> round_even r \<le> n"
proof (cases "r = of_int n")
  case True
  then show ?thesis by simp
next
  case False
  assume "r \<le> of_int n"
  with False have "r < of_int n" by simp
  then have "\<lfloor>r\<rfloor> < n" by (simp add: floor_less_iff)
  with round_even_cases [of r] show ?thesis by linarith
qed

lemma round_even_close: "\<bar>of_int (round_even r) - r\<bar> \<le> 1 / 2"
proof -
  define d where "d = r - of_int \<lfloor>r\<rfloor>"
  have d: "0 \<le> d" "d < 1" unfolding d_def by linarith+
  have r: "r = of_int \<lfloor>r\<rfloor> + d" unfolding d_def by simp
  consider "d < 1 / 2" | "1 / 2 < d" | "d = 1 / 2" by linarith
  then show ?thesis
  proof cases
    case 1
    then have "round_even r = \<lfloor>r\<rfloor>" by (simp add: round_even_def Let_def d_def)
    with 1 d show ?thesis unfolding d_def by simp
  next
    case 2
    then have "round_even r = \<lfloor>r\<rfloor> + 1" by (simp add: round_even_def Let_def d_def)
    with 2 d show ?thesis unfolding d_def by simp
  next
    case 3
    with round_even_cases [of r] d show ?thesis unfolding d_def by auto
  qed
qed

lemma round_even_uminus: "round_even (- r) = - round_even r"
proof (cases "r = of_int \<lfloor>r\<rfloor>")
  case True
  then obtain n where "r = of_int n" ..
  then show ?thesis by (simp flip: of_int_minus)
next
  case False
  define f where "f = \<lfloor>r\<rfloor>"
  define d where "d = r - of_int f"
  have d: "0 < d" "d < 1" using False unfolding d_def f_def by linarith+
  have fl: "\<lfloor>- r\<rfloor> = - f - 1"
    using d unfolding d_def by (intro floor_unique) simp_all
  have dm: "- r - of_int (- f - 1) = 1 - d" unfolding d_def by simp
  consider "d < 1 / 2" | "1 / 2 < d" | "d = 1 / 2" by linarith
  then show ?thesis
  proof cases
    case 1
    then show ?thesis
      using dm fl by (simp add: round_even_def Let_def f_def [symmetric] d_def [symmetric])
  next
    case 2
    then show ?thesis
      using dm fl by (simp add: round_even_def Let_def f_def [symmetric] d_def [symmetric])
  next
    case 3
    then show ?thesis
      using dm fl by (simp add: round_even_def Let_def f_def [symmetric] d_def [symmetric])
  qed
qed


lemma exponent64_uminus [simp]: "exponent64 (- x) = exponent64 x"
  by (simp add: exponent64_def)

lemma ulp64_uminus [simp]: "ulp64 (- x) = ulp64 x"
  by (simp add: ulp64_def)

lemma ulp64_pos [simp]: "0 < ulp64 x"
  by (simp add: ulp64_def)

lemma ulp64_nonzero [simp]: "ulp64 x \<noteq> 0"
  by (simp add: ulp64_def)

lemma ulp64_nonneg [simp]: "0 \<le> ulp64 x"
  by (simp add: ulp64_def)

lemma nearest64_uminus: "nearest64 (- x) = - nearest64 x"
  by (simp add: nearest64_def round_even_uminus)

lemma exponent64_ge [simp]: "- 1022 \<le> exponent64 x"
  by (simp add: exponent64_def)

lemma exponent64_normal:
  assumes "2 powr of_int e \<le> \<bar>x\<bar>" "\<bar>x\<bar> < 2 powr (of_int e + 1)" "- 1022 \<le> e"
  shows "exponent64 x = e"
proof -
  have "0 < \<bar>x\<bar>" using assms(1) by (smt (verit) powr_gt_zero)
  then have "\<lfloor>log 2 \<bar>x\<bar>\<rfloor> = e"
    using assms(1,2) by (simp add: floor_log_eq_powr_iff)
  with \<open>0 < \<bar>x\<bar>\<close> assms(3) show ?thesis by (simp add: exponent64_def)
qed

lemma exponent64_subnormal:
  assumes "\<bar>x\<bar> < 2 powr (- 1022)"
  shows "exponent64 x = - 1022"
proof (cases "x = 0")
  case True
  then show ?thesis by (simp add: exponent64_def)
next
  case False
  then have "0 < \<bar>x\<bar>" by simp
  then have "log 2 \<bar>x\<bar> < - 1022"
    using assms by (simp add: log_less_iff)
  then have "\<lfloor>log 2 \<bar>x\<bar>\<rfloor> < - 1022" by (simp add: floor_less_iff)
  with False show ?thesis by (simp add: exponent64_def)
qed

lemma exponent64_lower:
  assumes "2 powr (- 1022) \<le> \<bar>x\<bar>"
  shows "2 powr of_int (exponent64 x) \<le> \<bar>x\<bar>"
proof -
  have pos: "0 < \<bar>x\<bar>" using assms by (smt (verit) powr_gt_zero)
  then have x: "x \<noteq> 0" by simp
  have "- 1022 \<le> log 2 \<bar>x\<bar>" using assms pos by (simp add: le_log_iff)
  then have "- 1022 \<le> \<lfloor>log 2 \<bar>x\<bar>\<rfloor>" by (simp add: le_floor_iff)
  then have e: "exponent64 x = \<lfloor>log 2 \<bar>x\<bar>\<rfloor>" using x by (simp add: exponent64_def)
  have "2 powr of_int \<lfloor>log 2 \<bar>x\<bar>\<rfloor> \<le> \<bar>x\<bar>"
    using pos by (simp add: powr_le_iff)
  with e show ?thesis by simp
qed

lemma exponent64_upper: "\<bar>x\<bar> < 2 powr (of_int (exponent64 x) + 1)"
proof (cases "x = 0")
  case True
  then show ?thesis by simp
next
  case False
  then have pos: "0 < \<bar>x\<bar>" by simp
  have "log 2 \<bar>x\<bar> < of_int \<lfloor>log 2 \<bar>x\<bar>\<rfloor> + 1" by linarith
  also have "\<dots> \<le> of_int (exponent64 x) + 1" using False by (simp add: exponent64_def)
  finally have "log 2 \<bar>x\<bar> < of_int (exponent64 x) + 1" .
  then show ?thesis using pos by (subst (asm) log_less_iff) simp_all
qed


lemma round_even_zero [simp]: "round_even 0 = 0"
  by (simp add: round_even_def)

lemma nearest64_zero [simp]: "nearest64 0 = 0"
  by (simp add: nearest64_def)

lemma nearest64_close: "\<bar>nearest64 x - x\<bar> \<le> ulp64 x / 2"
proof -
  have "nearest64 x - x = ulp64 x * (of_int (round_even (x / ulp64 x)) - x / ulp64 x)"
    by (simp add: nearest64_def algebra_simps)
  then have "\<bar>nearest64 x - x\<bar> = ulp64 x * \<bar>of_int (round_even (x / ulp64 x)) - x / ulp64 x\<bar>"
    by (simp add: abs_mult)
  also have "\<dots> \<le> ulp64 x * (1 / 2)"
    by (intro mult_left_mono round_even_close) simp
  finally show ?thesis by simp
qed

lemma nearest64_ge_multiple:
  assumes "of_int n * ulp64 x \<le> x"
  shows "of_int n * ulp64 x \<le> nearest64 x"
proof -
  have "of_int n \<le> x / ulp64 x"
    using assms by (simp add: pos_le_divide_eq)
  then have "n \<le> round_even (x / ulp64 x)" by (rule round_even_ge)
  then have "of_int n * ulp64 x \<le> of_int (round_even (x / ulp64 x)) * ulp64 x"
    by (intro mult_right_mono) simp_all
  then show ?thesis by (simp add: nearest64_def mult.commute)
qed

lemma nearest64_le_multiple:
  assumes "x \<le> of_int n * ulp64 x"
  shows "nearest64 x \<le> of_int n * ulp64 x"
proof -
  have "x / ulp64 x \<le> of_int n"
    using assms by (simp add: pos_divide_le_eq)
  then have "round_even (x / ulp64 x) \<le> n" by (rule round_even_le)
  then have "of_int (round_even (x / ulp64 x)) * ulp64 x \<le> of_int n * ulp64 x"
    by (intro mult_right_mono) simp_all
  then show ?thesis by (simp add: nearest64_def mult.commute)
qed

lemma nearest64_exact:
  assumes "x = of_int n * ulp64 x"
  shows "nearest64 x = x"
  using nearest64_ge_multiple [of n x] nearest64_le_multiple [of x n] assms by simp

lemma nearest64_nonneg: "0 \<le> x \<Longrightarrow> 0 \<le> nearest64 x"
  using nearest64_ge_multiple [of 0 x] by simp

lemma nearest64_nonpos: "x \<le> 0 \<Longrightarrow> nearest64 x \<le> 0"
  using nearest64_le_multiple [of x 0] by simp

lemma powr_of_int_split:
  assumes "e \<le> p"
  shows "(2::real) powr of_int p = of_int (2 ^ nat (p - e)) * 2 powr of_int e"
proof -
  have "(2::real) powr of_int p = 2 powr (of_int (p - e) + of_int e)" by simp
  also have "\<dots> = 2 powr of_int (p - e) * 2 powr of_int e" by (rule powr_add)
  also have "(2::real) powr of_int (p - e) = 2 powr real (nat (p - e))" using assms by simp
  also have "\<dots> = 2 ^ nat (p - e)" by (simp add: powr_realpow)
  finally show ?thesis by simp
qed

lemma ulp64_le_scaled:
  assumes "\<bar>x\<bar> < 2 ^ 53 * 2 powr of_int p" "- 1074 \<le> p"
  shows "exponent64 x - 52 \<le> p"
proof (cases "2 powr (- 1022) \<le> \<bar>x\<bar>")
  case True
  have "2 powr of_int (exponent64 x) \<le> \<bar>x\<bar>" using True by (rule exponent64_lower)
  also have "\<bar>x\<bar> < 2 powr 53 * 2 powr of_int p" using assms(1) by simp
  also have "\<dots> = 2 powr (53 + of_int p)" by (simp add: powr_add)
  finally have "of_int (exponent64 x) < 53 + (of_int p :: real)" by simp
  then show ?thesis by linarith
next
  case False
  then have "exponent64 x = - 1022" by (simp add: exponent64_subnormal)
  with assms(2) show ?thesis by simp
qed

lemma nearest64_exact_scaled:
  assumes "\<bar>k\<bar> < 2 ^ 53" "- 1074 \<le> p"
  shows "nearest64 (of_int k * 2 powr of_int p) = of_int k * 2 powr of_int p"
proof -
  let ?x = "of_int k * 2 powr of_int p :: real"
  have "\<bar>?x\<bar> = of_int \<bar>k\<bar> * 2 powr of_int p" by (simp add: abs_mult)
  also have "\<dots> < 2 ^ 53 * 2 powr of_int p"
    using assms(1) by (intro mult_strict_right_mono) (simp_all flip: of_int_less_iff)
  finally have "exponent64 ?x - 52 \<le> p" using assms(2) by (rule ulp64_le_scaled)
  from powr_of_int_split [OF this]
  have "2 powr of_int p = of_int (2 ^ nat (p - (exponent64 ?x - 52))) * ulp64 ?x"
    by (simp add: ulp64_def)
  then have "?x = of_int (k * 2 ^ nat (p - (exponent64 ?x - 52))) * ulp64 ?x"
    by simp
  then show ?thesis by (rule nearest64_exact)
qed


lemma round_even_half: "\<bar>r\<bar> \<le> 1 / 2 \<Longrightarrow> round_even r = 0"
proof -
  assume r: "\<bar>r\<bar> \<le> 1 / 2"
  have "of_int (- 1) \<le> r - 1 / 2" "r + 1 / 2 \<le> of_int 1" using r by simp_all
  consider "0 \<le> r" "r < 1 / 2" | "r = 1 / 2" | "r < 0" "- (1 / 2) < r" | "r = - (1 / 2)"
    using r by linarith
  then show ?thesis
  proof cases
    case 1
    then have "\<lfloor>r\<rfloor> = 0" by (intro floor_unique) simp_all
    with 1 show ?thesis by (simp add: round_even_def)
  next
    case 2
    then have "\<lfloor>r\<rfloor> = 0" by (intro floor_unique) simp_all
    with 2 show ?thesis by (simp add: round_even_def)
  next
    case 3
    then have "\<lfloor>r\<rfloor> = - 1" by (intro floor_unique) simp_all
    with 3 show ?thesis by (simp add: round_even_def)
  next
    case 4
    then have "\<lfloor>r\<rfloor> = - 1" by (intro floor_unique) simp_all
    with 4 show ?thesis by (simp add: round_even_def)
  qed
qed

lemma round_even_add_small:
  assumes "0 \<le> d" "d < 1 / 2"
  shows "round_even (of_int k + d) = k"
proof -
  have "\<lfloor>of_int k + d\<rfloor> = k" using assms by (intro floor_unique) simp_all
  with assms show ?thesis by (simp add: round_even_def)
qed

lemma nearest64_tiny:
  assumes "\<bar>x\<bar> \<le> 2 powr (- 1075)"
  shows "nearest64 x = 0"
proof -
  have "(2::real) powr (- 1075) < 2 powr (- 1022)" by simp
  with assms have "\<bar>x\<bar> < 2 powr (- 1022)" by linarith
  then have u: "ulp64 x = 2 powr (- 1074)" by (simp add: ulp64_def exponent64_subnormal)
  have "(2::real) powr (- 1075) = 2 powr (- 1074) * (1 / 2)"
    using powr_add [of "2::real" "- 1074" "- 1"] by simp
  with assms have "\<bar>x\<bar> \<le> ulp64 x * (1 / 2)" using u by simp
  then have "\<bar>x / ulp64 x\<bar> \<le> 1 / 2"
    by (simp add: abs_divide pos_divide_le_eq mult.commute)
  then have "round_even (x / ulp64 x) = 0" by (rule round_even_half)
  then show ?thesis by (simp add: nearest64_def)
qed

lemma nearest64_le_double:
  assumes "0 \<le> x"
  shows "nearest64 x \<le> 2 * x"
proof (cases "x / ulp64 x \<le> 1 / 2")
  case True
  then have "\<bar>x / ulp64 x\<bar> \<le> 1 / 2" using assms by simp
  then have "round_even (x / ulp64 x) = 0" by (rule round_even_half)
  then show ?thesis using assms by (simp add: nearest64_def)
next
  case False
  have "nearest64 x - x \<le> ulp64 x / 2" using nearest64_close [of x] by linarith
  moreover have "ulp64 x / 2 < x" using False by (simp add: pos_divide_le_eq mult.commute not_le)
  ultimately show ?thesis by linarith
qed

lemma nearest64_le_pow2:
  assumes "0 \<le> x" "x \<le> 2 powr of_int p" "- 1074 \<le> p"
  shows "nearest64 x \<le> 2 powr of_int p"
proof -
  have "\<bar>x\<bar> \<le> 1 * 2 powr of_int p" using assms by simp
  also have "\<dots> < 2 ^ 53 * 2 powr of_int p" by (intro mult_strict_right_mono) simp_all
  finally have "exponent64 x - 52 \<le> p" using assms(3) by (rule ulp64_le_scaled)
  from powr_of_int_split [OF this]
  have m: "2 powr of_int p = of_int (2 ^ nat (p - (exponent64 x - 52))) * ulp64 x"
    by (simp add: ulp64_def)
  from assms(2) have "x \<le> of_int (2 ^ nat (p - (exponent64 x - 52))) * ulp64 x"
    by (simp only: m [symmetric])
  then have "nearest64 x \<le> of_int (2 ^ nat (p - (exponent64 x - 52))) * ulp64 x"
    by (rule nearest64_le_multiple)
  then show ?thesis by (simp only: m [symmetric])
qed

lemma nearest64_ge_pow2:
  assumes "2 powr of_int p \<le> x" "- 1074 \<le> p"
  shows "2 powr of_int p \<le> nearest64 x"
proof (cases "exponent64 x - 52 \<le> p")
  case True
  from powr_of_int_split [OF this]
  have m: "2 powr of_int p = of_int (2 ^ nat (p - (exponent64 x - 52))) * ulp64 x"
    by (simp add: ulp64_def)
  from assms(1) have "of_int (2 ^ nat (p - (exponent64 x - 52))) * ulp64 x \<le> x"
    by (simp only: m [symmetric])
  then have "of_int (2 ^ nat (p - (exponent64 x - 52))) * ulp64 x \<le> nearest64 x"
    by (rule nearest64_ge_multiple)
  then show ?thesis by (simp only: m [symmetric])
next
  case False
  then have pe: "p < exponent64 x - 52" by simp
  have x: "0 < x" using assms(1) by (smt (verit) powr_gt_zero)
  have normal: "2 powr (- 1022) \<le> \<bar>x\<bar>"
  proof (rule ccontr)
    assume "\<not> 2 powr (- 1022) \<le> \<bar>x\<bar>"
    then have "exponent64 x = - 1022" by (simp add: exponent64_subnormal)
    with pe assms(2) show False by simp
  qed
  have "exponent64 x - 52 \<le> exponent64 x" by simp
  from powr_of_int_split [OF this]
  have m: "2 powr of_int (exponent64 x) = of_int (2 ^ nat 52) * ulp64 x"
    by (simp add: ulp64_def)
  have "2 powr of_int (exponent64 x) \<le> x" using exponent64_lower [OF normal] x by simp
  then have "of_int (2 ^ nat 52) * ulp64 x \<le> x" by (simp only: m [symmetric])
  then have "of_int (2 ^ nat 52) * ulp64 x \<le> nearest64 x" by (rule nearest64_ge_multiple)
  then have "2 powr of_int (exponent64 x) \<le> nearest64 x" by (simp only: m [symmetric])
  moreover have "(2::real) powr of_int p \<le> 2 powr of_int (exponent64 x)" using pe by simp
  ultimately show ?thesis by linarith
qed


lemma ulp64_times: "2 powr (of_int (exponent64 x) + 1) = 2 ^ 53 * ulp64 x"
proof -
  have "exponent64 x - 52 \<le> exponent64 x + 1" by simp
  from powr_of_int_split [OF this] show ?thesis by (simp add: ulp64_def)
qed

lemma quotient_bound: "\<bar>x / ulp64 x\<bar> < 2 ^ 53"
proof -
  have "\<bar>x\<bar> < 2 ^ 53 * ulp64 x" using exponent64_upper [of x] by (simp add: ulp64_times)
  then show ?thesis by (simp add: abs_divide pos_divide_less_eq)
qed

lemma significand_bound: "\<bar>round_even (x / ulp64 x)\<bar> \<le> 2 ^ 53"
proof -
  have b: "\<bar>x / ulp64 x\<bar> < 2 ^ 53" by (rule quotient_bound)
  have c: "(of_int (2 ^ 53) :: real) = 2 ^ 53" "(of_int (- (2 ^ 53)) :: real) = - (2 ^ 53)"
    by simp_all
  have d: "x / ulp64 x \<le> of_int (2 ^ 53)" "of_int (- (2 ^ 53)) \<le> x / ulp64 x"
    unfolding c using b by linarith+
  have "round_even (x / ulp64 x) \<le> 2 ^ 53" using d(1) by (rule round_even_le)
  moreover have "- (2 ^ 53) \<le> round_even (x / ulp64 x)" using d(2) by (rule round_even_ge)
  ultimately show ?thesis by simp
qed

lemma nearest64_idem: "nearest64 (nearest64 x) = nearest64 x"
proof -
  define k where "k = round_even (x / ulp64 x)"
  define e where "e = exponent64 x"
  have y: "nearest64 x = of_int k * 2 powr of_int (e - 52)"
    by (simp add: nearest64_def k_def e_def ulp64_def mult.commute)
  have e: "- 1074 \<le> e - 52" using exponent64_ge [of x] unfolding e_def by linarith
  have "\<bar>k\<bar> \<le> 2 ^ 53" unfolding k_def by (rule significand_bound)
  then consider "\<bar>k\<bar> < 2 ^ 53" | "k = 2 ^ 53" | "k = - (2 ^ 53)" by linarith
  then show ?thesis
  proof cases
    case 1
    then show ?thesis unfolding y using e by (rule nearest64_exact_scaled)
  next
    case 2
    have "e - 52 \<le> e + 1" by simp
    from powr_of_int_split [OF this]
    have "nearest64 x = of_int 1 * 2 powr of_int (e + 1)" unfolding y 2 by simp
    moreover have "nearest64 (of_int 1 * 2 powr of_int (e + 1)) = of_int 1 * 2 powr of_int (e + 1)"
      using e by (intro nearest64_exact_scaled) simp_all
    ultimately show ?thesis by simp
  next
    case 3
    have "e - 52 \<le> e + 1" by simp
    from powr_of_int_split [OF this]
    have "nearest64 x = of_int (- 1) * 2 powr of_int (e + 1)" unfolding y 3 by simp
    moreover have "nearest64 (of_int (- 1) * 2 powr of_int (e + 1)) = of_int (- 1) * 2 powr of_int (e + 1)"
      using e by (intro nearest64_exact_scaled) simp_all
    ultimately show ?thesis by simp
  qed
qed

lemma nearest64_absorb:
  assumes "nearest64 a = a" "0 < a" "0 \<le> t" "t < ulp64 a / 2"
  shows "nearest64 (a + t) = a"
proof -
  define k where "k = round_even (a / ulp64 a)"
  have a: "a = of_int k * ulp64 a"
    using assms(1) by (simp add: nearest64_def k_def mult.commute)
  have q: "a / ulp64 a = of_int k" using a by (simp add: divide_eq_eq)
  have next_mult: "a + t < of_int (k + 1) * ulp64 a"
  proof -
    have "a + t < of_int k * ulp64 a + ulp64 a" using a assms(4) ulp64_pos [of a] by linarith
    then show ?thesis by (simp add: algebra_simps)
  qed
  have ex: "exponent64 (a + t) = exponent64 a"
  proof (cases "2 powr (- 1022) \<le> \<bar>a\<bar>")
    case True
    have "\<bar>of_int k :: real\<bar> < 2 ^ 53" using quotient_bound [of a] unfolding q .
    then have "(of_int k :: real) < of_int (2 ^ 53)" by simp
    then have "k < 2 ^ 53" by (simp only: of_int_less_iff)
    then have "k + 1 \<le> 2 ^ 53" by simp
    then have "(of_int (k + 1) :: real) \<le> of_int (2 ^ 53)" by (simp only: of_int_le_iff)
    then have "of_int (k + 1) * ulp64 a \<le> of_int (2 ^ 53) * ulp64 a"
      by (intro mult_right_mono) simp_all
    with next_mult have "a + t < of_int (2 ^ 53) * ulp64 a" by linarith
    then have up: "a + t < 2 powr (of_int (exponent64 a) + 1)"
      by (simp add: ulp64_times)
    have "2 powr of_int (exponent64 a) \<le> \<bar>a\<bar>" using True by (rule exponent64_lower)
    then have lo: "2 powr of_int (exponent64 a) \<le> \<bar>a + t\<bar>" using assms(2,3) by simp
    from lo show ?thesis
      using up assms(2,3) by (intro exponent64_normal) simp_all
  next
    case False
    then have sub: "\<bar>a\<bar> < 2 powr (- 1022)" by simp
    then have e: "exponent64 a = - 1022" by (rule exponent64_subnormal)
    have u: "2 powr (- 1022) = 2 ^ 52 * ulp64 a"
      using powr_of_int_split [of "- 1074" "- 1022"] by (simp add: ulp64_def e)
    have "a < 2 powr (- 1022)" using sub assms(2) by simp
    then have "of_int k * ulp64 a < of_int (2 ^ 52) * ulp64 a" using a u by simp
    then have "(of_int k :: real) < of_int (2 ^ 52)"
      using ulp64_pos [of a] by (simp only: mult_less_cancel_right_pos)
    then have "k < 2 ^ 52" by (simp only: of_int_less_iff)
    then have "k + 1 \<le> 2 ^ 52" by simp
    then have "(of_int (k + 1) :: real) \<le> of_int (2 ^ 52)" by (simp only: of_int_le_iff)
    then have "of_int (k + 1) * ulp64 a \<le> of_int (2 ^ 52) * ulp64 a"
      by (intro mult_right_mono) simp_all
    with next_mult have "a + t < of_int (2 ^ 52) * ulp64 a" by linarith
    then have "a + t < 2 powr (- 1022)" using u by simp
    then have "\<bar>a + t\<bar> < 2 powr (- 1022)" using assms(2,3) by simp
    then show ?thesis using e by (simp add: exponent64_subnormal)
  qed
  then have u: "ulp64 (a + t) = ulp64 a" by (simp add: ulp64_def)
  have "(a + t) / ulp64 a = of_int k + t / ulp64 a" using q by (simp add: add_divide_distrib)
  moreover have "0 \<le> t / ulp64 a" "t / ulp64 a < 1 / 2"
    using assms(3,4) by (simp_all add: pos_divide_less_eq)
  ultimately have "round_even ((a + t) / ulp64 a) = k" by (simp add: round_even_add_small)
  then show ?thesis using a by (simp add: nearest64_def u mult.commute)
qed


lemma round64_finite: "\<bar>nearest64 x\<bar> < 2 powr 1024 \<Longrightarrow> round64 x = Fin (nearest64 x)"
  by (simp add: round64_def Let_def)

lemma round64_Fin: "round64 x = Fin y \<Longrightarrow> y = nearest64 x \<and> \<bar>y\<bar> < 2 powr 1024"
  by (auto simp: round64_def Let_def split: if_splits)

lemma round64_zero [simp]: "round64 0 = Fin 0"
  by (simp add: round64_def)

lemma round64_not_NaN [simp]: "round64 x \<noteq> NaN"
  by (simp add: round64_def Let_def)

lemma round64_uminus: "round64 (- x) = fneg (round64 x)"
  by (simp add: round64_def Let_def nearest64_uminus)

lemma round64_idem: "round64 x = Fin y \<Longrightarrow> round64 y = Fin y"
proof -
  assume "round64 x = Fin y"
  then have y: "y = nearest64 x" "\<bar>y\<bar> < 2 powr 1024" using round64_Fin by blast+
  then have "nearest64 y = y" by (simp add: nearest64_idem)
  with y(2) show ?thesis by (simp add: round64_finite)
qed

lemma round64_exact_scaled:
  assumes "\<bar>k\<bar> < 2 ^ 53" "- 1074 \<le> p" "\<bar>of_int k * 2 powr of_int p :: real\<bar> < 2 powr 1024"
  shows "round64 (of_int k * 2 powr of_int p) = Fin (of_int k * 2 powr of_int p)"
proof -
  have n: "nearest64 (of_int k * 2 powr of_int p) = of_int k * 2 powr of_int p"
    using assms(1,2) by (rule nearest64_exact_scaled)
  show ?thesis using assms(3) by (subst round64_finite) (simp_all only: n)
qed

lemma round64_of_int:
  assumes "\<bar>k\<bar> < 2 ^ 53"
  shows "round64 (of_int k) = Fin (of_int k)"
proof -
  have "\<bar>of_int k :: real\<bar> < of_int (2 ^ 53)"
    using assms by (simp only: of_int_abs [symmetric] of_int_less_iff)
  also have "(of_int (2 ^ 53) :: real) = 2 powr 53" by simp
  also have "(2::real) powr 53 < 2 powr 1024" by (rule powr_less_mono) simp_all
  finally have "\<bar>of_int k * 2 powr of_int 0 :: real\<bar> < 2 powr 1024" by simp
  with round64_exact_scaled [OF assms, of 0] show ?thesis by simp
qed

lemma round64_pow2:
  assumes "- 1074 \<le> p" "p < 1024"
  shows "round64 (2 powr of_int p) = Fin (2 powr of_int p)"
proof -
  have "(2::real) powr of_int p < 2 powr 1024" using assms(2) by (intro powr_less_mono) simp_all
  then have "\<bar>of_int 1 * 2 powr of_int p :: real\<bar> < 2 powr 1024" by simp
  with round64_exact_scaled [of 1 p] assms(1) show ?thesis by simp
qed

lemma round64_overflow:
  assumes "2 powr 1024 \<le> x"
  shows "round64 x = PInf"
proof -
  have "2 powr of_int 1024 \<le> nearest64 x" using assms by (intro nearest64_ge_pow2) simp_all
  then have "2 powr 1024 \<le> nearest64 x" by simp
  moreover have "(0::real) < 2 powr 1024" by simp
  ultimately show ?thesis by (simp add: round64_def Let_def)
qed

lemma round64_nonneg:
  assumes "0 \<le> x"
  shows "round64 x = PInf \<or> (\<exists>y. round64 x = Fin y \<and> 0 \<le> y)"
  using nearest64_nonneg [OF assms] by (simp add: round64_def Let_def)

lemma round64_between:
  assumes "2 powr of_int p \<le> x" "x \<le> 2 powr of_int q" "- 1074 \<le> p" "q < 1024"
  shows "\<exists>y. round64 x = Fin y \<and> 2 powr of_int p \<le> y \<and> y \<le> 2 powr of_int q"
proof -
  have x: "0 \<le> x" using assms(1) by (smt (verit) powr_ge_zero)
  have "(2::real) powr of_int p \<le> 2 powr of_int q" using assms(1,2) by linarith
  then have "p \<le> q" by simp
  then have q: "- 1074 \<le> q" using assms(3) by simp
  have lo: "2 powr of_int p \<le> nearest64 x" using assms(1,3) by (rule nearest64_ge_pow2)
  have hi: "nearest64 x \<le> 2 powr of_int q" using x assms(2) q by (rule nearest64_le_pow2)
  have "(2::real) powr of_int q < 2 powr 1024" using assms(4) by (intro powr_less_mono) simp_all
  moreover have "0 \<le> nearest64 x" using x by (rule nearest64_nonneg)
  ultimately have "\<bar>nearest64 x\<bar> < 2 powr 1024" using hi by simp
  then have "round64 x = Fin (nearest64 x)" by (rule round64_finite)
  with lo hi show ?thesis by simp
qed

lemma round64_absorb:
  assumes "round64 a = Fin a" "0 < a" "0 \<le> t" "t < ulp64 a / 2"
  shows "round64 (a + t) = Fin a"
proof -
  have a: "nearest64 a = a" "\<bar>a\<bar> < 2 powr 1024" using round64_Fin [OF assms(1)] by simp_all
  have "nearest64 (a + t) = a" using a(1) assms(2-4) by (rule nearest64_absorb)
  with a(2) show ?thesis by (simp add: round64_finite)
qed

subsection \<open>Parameter checks\<close>

lemma flt_zero_not_fle: "flt (Fin 0) theta \<Longrightarrow> \<not> fle theta (Fin 0)"
  by (cases theta) simp_all

lemma fle_zero_not_flt: "fle (Fin 0) c \<Longrightarrow> \<not> flt c (Fin 0)"
  by (cases c) simp_all

lemma fsqrt_not_negative: "\<not> flt (fsqrt x) (Fin 0)"
proof (cases x)
  case (Fin a)
  show ?thesis
  proof (cases "a < 0")
    case True
    with Fin show ?thesis by simp
  next
    case False
    then have "0 \<le> sqrt a" by simp
    from round64_nonneg [OF this] Fin False show ?thesis by auto
  qed
qed simp_all

text \<open>
  C2. \<open>_pearson_residuals\<close> raises the theta error exactly when \<open>theta <= 0\<close> (so for
  \<open>0\<close> and \<open>-1\<close>), whatever the clip is, so that the theta error wins when both
  parameters are invalid; it raises the clip error exactly when theta passes and a clip
  below zero is given (so for \<open>-1\<close>); and it raises nothing when theta is above zero
  and the clip is \<open>None\<close>, at least zero, or plus infinity.
\<close>

theorem pearson_residuals_parameter_errors:
  "((fst (pearson_residuals X theta clip check_values copy) = Inl theta_error)
      = fle theta (Fin 0))
   \<and> ((fst (pearson_residuals X theta clip check_values copy) = Inl clip_error)
      = (\<not> fle theta (Fin 0) \<and> (\<exists>c. clip = Some c \<and> flt c (Fin 0))))
   \<and> (flt (Fin 0) theta \<and> (clip = None \<or> (\<exists>c. clip = Some c \<and> fle (Fin 0) c))
      \<longrightarrow> (\<exists>R. fst (pearson_residuals X theta clip check_values copy) = Inr R))"
proof (intro conjI impI)
  show "(fst (pearson_residuals X theta clip check_values copy) = Inl theta_error)
      = fle theta (Fin 0)"
    by (simp add: pearson_residuals_def Let_def theta_error_def clip_error_def)
  show "(fst (pearson_residuals X theta clip check_values copy) = Inl clip_error)
      = (\<not> fle theta (Fin 0) \<and> (\<exists>c. clip = Some c \<and> flt c (Fin 0)))"
    by (cases clip)
      (simp_all add: pearson_residuals_def Let_def theta_error_def clip_error_def clip_bound_def
        fsqrt_not_negative)
  assume valid: "flt (Fin 0) theta \<and> (clip = None \<or> (\<exists>c. clip = Some c \<and> fle (Fin 0) c))"
  then have "\<not> fle theta (Fin 0)"
    by (simp add: flt_zero_not_fle)
  moreover from valid have "\<not> flt (clip_bound X clip) (Fin 0)"
    by (auto simp: clip_bound_def fle_zero_not_flt fsqrt_not_negative)
  ultimately show "\<exists>R. fst (pearson_residuals X theta clip check_values copy) = Inr R"
    by (simp add: pearson_residuals_def Let_def)
qed

theorem pearson_residuals_parameter_errors_witness:
  "fst (pearson_residuals [[Fin 3]] (Fin 0) None True 0) = Inl theta_error
   \<and> fst (pearson_residuals [[Fin 3]] (Fin (- 1)) None True 0) = Inl theta_error
   \<and> fst (pearson_residuals [[Fin 3]] (Fin (- 1)) (Some (Fin (- 1))) True 0) = Inl theta_error
   \<and> fst (pearson_residuals [[Fin 3]] (Fin 100) (Some (Fin (- 1))) True 0) = Inl clip_error
   \<and> (\<exists>R. fst (pearson_residuals [[Fin 3]] (Fin 100) None True 0) = Inr R)
   \<and> (\<exists>R. fst (pearson_residuals [[Fin 3]] (Fin 100) (Some (Fin 0)) True 0) = Inr R)
   \<and> (\<exists>R. fst (pearson_residuals [[Fin 3]] (Fin 100) (Some PInf) True 0) = Inr R)
   \<and> (\<exists>R. fst (pearson_residuals [[Fin 3]] PInf (Some PInf) True 0) = Inr R)"
  using pearson_residuals_parameter_errors [of "[[Fin 3]]" "Fin 0" None True 0]
    pearson_residuals_parameter_errors [of "[[Fin 3]]" "Fin (- 1)" None True 0]
    pearson_residuals_parameter_errors [of "[[Fin 3]]" "Fin (- 1)" "Some (Fin (- 1))" True 0]
    pearson_residuals_parameter_errors [of "[[Fin 3]]" "Fin 100" "Some (Fin (- 1))" True 0]
    pearson_residuals_parameter_errors [of "[[Fin 3]]" "Fin 100" None True 0]
    pearson_residuals_parameter_errors [of "[[Fin 3]]" "Fin 100" "Some (Fin 0)" True 0]
    pearson_residuals_parameter_errors [of "[[Fin 3]]" "Fin 100" "Some PInf" True 0]
    pearson_residuals_parameter_errors [of "[[Fin 3]]" PInf "Some PInf" True 0]
  by simp

subsection \<open>The residual formula\<close>

lemma rectangular_rows: "rectangular X \<Longrightarrow> r \<in> set X \<Longrightarrow> length r = n_cols X"
  by (simp add: rectangular_def list_all_iff)

lemma pearson_residuals_valid:
  assumes "flt (Fin 0) theta" and "clip = None \<or> (\<exists>c. clip = Some c \<and> fle (Fin 0) c)"
  shows "fst (pearson_residuals X theta clip check_values copy) =
    Inr (clip_array
      (map2 (map2 (residual theta))
        (map2 (map2 fsub) X
          (map (map (\<lambda>p. fdiv p (fsum (axis_sum0 X)))) (matmul_col_row (axis_sum1 X) (axis_sum0 X))))
        (map (map (\<lambda>p. fdiv p (fsum (axis_sum0 X)))) (matmul_col_row (axis_sum1 X) (axis_sum0 X))))
      (fneg (clip_bound X clip)) (clip_bound X clip))"
proof -
  have "\<not> fle theta (Fin 0)"
    using assms(1) by (rule flt_zero_not_fle)
  moreover have "\<not> flt (clip_bound X clip) (Fin 0)"
    using assms(2) by (auto simp: clip_bound_def fle_zero_not_flt fsqrt_not_negative)
  ultimately show ?thesis
    by (simp add: pearson_residuals_def Let_def)
qed

lemma axis_sum0_col_sum: "axis_sum0 X = map (col_sum X) [0..<n_cols X]"
  by (simp add: axis_sum0_def col_sum_def)

lemma mu_entry:
  assumes "i < length X" "j < n_cols X"
  shows "map (map (\<lambda>p. fdiv p (fsum (axis_sum0 X)))) (matmul_col_row (axis_sum1 X) (axis_sum0 X)) ! i ! j
    = expected X i j"
  using assms
  by (simp add: axis_sum0_col_sum matmul_col_row_def axis_sum1_def expected_def row_sum_def
      grand_sum_def)

lemma length_matmul_col_row: "length (matmul_col_row c r) = length c"
  by (simp add: matmul_col_row_def)

lemma length_axis_sum1: "length (axis_sum1 X) = length X"
  by (simp add: axis_sum1_def)

lemma length_axis_sum0: "length (axis_sum0 X) = n_cols X"
  by (simp add: axis_sum0_def)

lemma mu_shape:
  "length (map (map (\<lambda>p. fdiv p s)) (matmul_col_row (axis_sum1 X) (axis_sum0 X))) = length X"
  "i < length X \<Longrightarrow>
    length (map (map (\<lambda>p. fdiv p s)) (matmul_col_row (axis_sum1 X) (axis_sum0 X)) ! i) = n_cols X"
  by (simp_all add: matmul_col_row_def axis_sum1_def axis_sum0_def)

text \<open>
  Small whole numbers and one half are float64 values, and the residual of the one-by-one
  matrix of the entry \<open>3\<close> is zero: the entry is its own expected value.
\<close>

lemma round64_numeral: "numeral n < (2::int) ^ 53 \<Longrightarrow> round64 (numeral n) = Fin (numeral n)"
  using round64_of_int [of "numeral n"] by simp

lemma round64_one: "round64 1 = Fin 1"
  using round64_of_int [of 1] by simp

lemma round64_half: "round64 (1 / 2) = Fin (1 / 2)"
proof -
  have "(2::real) powr of_int (- 1) = 1 / 2"
    by (simp add: powr_minus_divide)
  then show ?thesis
    using round64_exact_scaled [of 1 "- 1"] by simp
qed

lemma residual_three: "residual (Fin 100) (Fin 0) (Fin 3) = Fin 0"
proof -
  have "(2::real) powr of_int (- 4) = 1 / 16" "(2::real) powr of_int (- 3) = 1 / 8"
    by (simp_all add: powr_minus_divide)
  then have "2 powr of_int (- 4) \<le> (9 / 100 :: real)" "(9 / 100 :: real) \<le> 2 powr of_int (- 3)"
    by simp_all
  then obtain z where z: "round64 (9 / 100) = Fin z" "2 powr of_int (- 4) \<le> z"
      "z \<le> 2 powr of_int (- 3)"
    using round64_between [of "- 4" "9 / 100" "- 3"] by auto
  have zb: "0 \<le> z" "z \<le> 1"
    using z(2,3) \<open>(2::real) powr of_int (- 4) = 1 / 16\<close> \<open>(2::real) powr of_int (- 3) = 1 / 8\<close>
    by simp_all
  have "(2::real) powr of_int 1 \<le> 3 + z" "3 + z \<le> 2 powr of_int 2"
    using zb by simp_all
  then obtain w where w: "round64 (3 + z) = Fin w" "2 powr of_int 1 \<le> w" "w \<le> 2 powr of_int 2"
    using round64_between [of 1 "3 + z" 2] by auto
  have wb: "1 \<le> w" "w \<le> 4"
    using w(2,3) by simp_all
  have "1 \<le> sqrt w"
    using wb(1) by simp
  moreover have "sqrt w \<le> 2"
    using wb by (intro real_le_lsqrt) simp_all
  ultimately have "1 \<le> sqrt w" "sqrt w \<le> 2"
    by simp_all
  then have "(2::real) powr of_int 0 \<le> sqrt w" "sqrt w \<le> 2 powr of_int 1"
    by simp_all
  then obtain v where v: "round64 (sqrt w) = Fin v" "2 powr of_int 0 \<le> v"
    using round64_between [of 0 "sqrt w" 1] by auto
  have "v \<noteq> 0"
    using v(2) by simp
  then show ?thesis
    using z(1) w(1) v(1) wb by (simp add: residual_def round64_numeral)
qed

lemma expected_three: "expected [[Fin 3]] 0 0 = Fin 3"
  by (simp add: expected_def row_sum_def col_sum_def grand_sum_def n_cols_def fsum_def
      round64_numeral)

lemma pearson_residuals_three:
  "fst (pearson_residuals [[Fin 3]] (Fin 100) None check_values copy) = Inr [[Fin 0]]"
proof -
  have "fsub (Fin 3) (Fin 3) = Fin 0"
    by (simp add: fsub_def)
  moreover have "fsqrt (round64 1) = Fin 1"
    by (simp add: round64_one)
  ultimately show ?thesis
    using residual_three
    by (simp add: pearson_residuals_valid axis_sum0_def axis_sum1_def n_cols_def
        matmul_col_row_def fsum_def round64_numeral clip_array_def clip_bound_def clip_value_def)
qed

text \<open>
  C1. For a matrix \<open>X\<close> of \<open>n\<close> rows, a theta above zero and a valid clip (\<open>None\<close>, or
  a number that is at least zero, plus infinity among them), \<open>_pearson_residuals\<close> returns
  the matrix of the shape of \<open>X\<close> whose entry \<open>(i, j)\<close> is
  \<open>(X[i,j] - mu[i,j]) / sqrt(mu[i,j] + mu[i,j]^2 / theta)\<close> clipped to \<open>[-clip, +clip]\<close>,
  where \<open>mu[i,j]\<close> is the sum of row \<open>i\<close> times the sum of column \<open>j\<close> over the grand
  sum, and the clip is \<open>sqrt(n)\<close> when the caller passes \<open>None\<close>. Every operation is
  the float64 one, rounding and overflowing as float64 does: where a product of sums is
  out of range, the entry is what float64 makes of the formula, which can be NaN.
\<close>

theorem pearson_residuals_formula:
  assumes "rectangular X" and "flt (Fin 0) theta"
    and "clip = None \<or> (\<exists>c. clip = Some c \<and> fle (Fin 0) c)"
  shows "\<exists>R. fst (pearson_residuals X theta clip check_values copy) = Inr R
    \<and> length R = length X
    \<and> (\<forall>i < length X. length (R ! i) = n_cols X
        \<and> (\<forall>j < n_cols X.
              R ! i ! j =
                clip_value
                  (fneg (case clip of None \<Rightarrow> fsqrt (round64 (real (length X))) | Some c \<Rightarrow> c))
                  (case clip of None \<Rightarrow> fsqrt (round64 (real (length X))) | Some c \<Rightarrow> c)
                  (fdiv (fsub (X ! i ! j) (expected X i j))
                     (fsqrt (fadd (expected X i j)
                        (fdiv (fmul (expected X i j) (expected X i j)) theta))))))"
proof -
  let ?mu = "map (map (\<lambda>p. fdiv p (fsum (axis_sum0 X)))) (matmul_col_row (axis_sum1 X) (axis_sum0 X))"
  let ?R = "clip_array (map2 (map2 (residual theta)) (map2 (map2 fsub) X ?mu) ?mu)
      (fneg (clip_bound X clip)) (clip_bound X clip)"
  have val: "fst (pearson_residuals X theta clip check_values copy) = Inr ?R"
    using assms(2,3) by (rule pearson_residuals_valid)
  have len: "length ?R = length X"
    by (simp add: clip_array_def length_matmul_col_row length_axis_sum1)
  have row: "length (?R ! i) = n_cols X \<and> ?R ! i ! j = clip_value
                  (fneg (case clip of None \<Rightarrow> fsqrt (round64 (real (length X))) | Some c \<Rightarrow> c))
                  (case clip of None \<Rightarrow> fsqrt (round64 (real (length X))) | Some c \<Rightarrow> c)
                  (fdiv (fsub (X ! i ! j) (expected X i j))
                     (fsqrt (fadd (expected X i j)
                        (fdiv (fmul (expected X i j) (expected X i j)) theta))))"
    if "i < length X" "j < n_cols X" for i j
  proof -
    have li: "length (X ! i) = n_cols X"
      using assms(1) that(1) by (simp add: rectangular_rows)
    have lm: "length (?mu ! i) = n_cols X"
      using that(1) by (rule mu_shape)
    have e: "?mu ! i ! j = expected X i j"
      using that by (rule mu_entry)
    show ?thesis
      using that li lm e
      by (simp add: clip_array_def length_matmul_col_row length_axis_sum1 residual_def
          clip_bound_def)
  qed
  have row_len: "length (?R ! i) = n_cols X" if "i < length X" for i
  proof -
    have li: "length (X ! i) = n_cols X"
      using assms(1) that(1) by (simp add: rectangular_rows)
    have lm: "length (?mu ! i) = n_cols X"
      using that(1) by (rule mu_shape)
    show ?thesis
      using that li lm by (simp add: clip_array_def length_matmul_col_row length_axis_sum1)
  qed
  show ?thesis
    using val len row row_len by blast
qed

theorem pearson_residuals_formula_witness:
  "rectangular [[Fin 4, Fin 0], [Fin 0, Fin 4]] \<and> flt (Fin 0) (Fin 2)
   \<and> fle (Fin 0) (Fin (1 / 2))
   \<and> (\<exists>R. fst (pearson_residuals [[Fin 4, Fin 0], [Fin 0, Fin 4]] (Fin 2)
              (Some (Fin (1 / 2))) True 0) = Inr R
        \<and> R ! 0 ! 0 = Fin (1 / 2) \<and> R ! 0 ! 1 = Fin (- (1 / 2))
        \<and> R ! 1 ! 0 = Fin (- (1 / 2)) \<and> R ! 1 ! 1 = Fin (1 / 2))
   \<and> (\<exists>R. fst (pearson_residuals [[Fin 3]] (Fin 100) None True 0) = Inr R
        \<and> R ! 0 ! 0 = Fin 0)
   \<and> (\<exists>R. fst (pearson_residuals [[Fin (10 ^ 200)]] (Fin 100) (Some (Fin 1)) True 0) = Inr R
        \<and> R ! 0 ! 0 = NaN)"
proof -
  let ?X = "[[Fin 4, Fin 0], [Fin 0, Fin 4]]"
  define x :: real where "x = 10 ^ 200"
  let ?Y = "[[Fin x]]"
  have r: "rectangular ?X" "rectangular [[Fin 3]]" "rectangular ?Y"
    by (simp_all add: rectangular_def n_cols_def)
  have up: "[0..<2] = [0, Suc 0]"
    by (simp add: numeral_2_eq_2)
  have e: "expected ?X 0 0 = Fin 2" "expected ?X 0 (Suc 0) = Fin 2"
    "expected ?X (Suc 0) 0 = Fin 2" "expected ?X (Suc 0) (Suc 0) = Fin 2"
    by (simp_all add: expected_def row_sum_def col_sum_def grand_sum_def n_cols_def fsum_def up
        round64_numeral)
  have s: "sqrt 4 = 2"
    by simp
  from pearson_residuals_formula [OF r(1), of "Fin 2" "Some (Fin (1 / 2))" True 0]
  obtain R where R: "fst (pearson_residuals ?X (Fin 2) (Some (Fin (1 / 2))) True 0) = Inr R"
    "\<forall>i<2. \<forall>j<2. R ! i ! j = clip_value (Fin (- (1 / 2))) (Fin (1 / 2))
        (fdiv (fsub (?X ! i ! j) (expected ?X i j))
          (fsqrt (fadd (expected ?X i j) (fdiv (fmul (expected ?X i j) (expected ?X i j)) (Fin 2)))))"
    by (auto simp: n_cols_def)
  have a1: "R ! 0 ! 0 = Fin (1 / 2) \<and> R ! 0 ! 1 = Fin (- (1 / 2))
        \<and> R ! 1 ! 0 = Fin (- (1 / 2)) \<and> R ! 1 ! 1 = Fin (1 / 2)"
    using R(2)
    by (simp add: e s fsub_def clip_value_def numeral_2_eq_2 All_less_Suc round64_numeral
        round64_one round64_uminus)
  from pearson_residuals_formula [OF r(2), of "Fin 100" None True 0]
  obtain R' where R': "fst (pearson_residuals [[Fin 3]] (Fin 100) None True 0) = Inr R'"
    "R' ! 0 ! 0 = clip_value (fneg (fsqrt (round64 1))) (fsqrt (round64 1))
        (fdiv (fsub (Fin 3) (expected [[Fin 3]] 0 0))
          (fsqrt (fadd (expected [[Fin 3]] 0 0)
             (fdiv (fmul (expected [[Fin 3]] 0 0) (expected [[Fin 3]] 0 0)) (Fin 100)))))"
    by (auto simp: n_cols_def)
  have "fsub (Fin 3) (Fin 3) = Fin 0"
    by (simp add: fsub_def)
  then have a2: "R' ! 0 ! 0 = Fin 0"
    using R'(2) residual_three
    by (simp add: expected_three residual_def clip_value_def round64_one)
  have "2 powr of_int 664 \<le> x" "x \<le> 2 powr of_int 665"
    by (simp_all add: x_def powr_realpow)
  then obtain y where y: "round64 x = Fin y" "2 powr of_int 664 \<le> y"
      "y \<le> 2 powr of_int 665"
    using round64_between [of 664 x 665] by auto
  have yy: "round64 y = Fin y"
    using y(1) round64_idem by metis
  have y0: "0 < y"
    using y(2) by (smt (verit) powr_gt_zero)
  have "(2::real) powr 1024 \<le> 2 powr of_int 664 * 2 powr of_int 664"
    by (simp add: powr_add [symmetric])
  also have "\<dots> \<le> y * y"
    using y(2) by (intro mult_mono) simp_all
  finally have over: "round64 (y * y) = PInf"
    by (rule round64_overflow)
  have ey: "expected ?Y 0 0 = PInf"
    using y0 by (simp add: expected_def row_sum_def col_sum_def grand_sum_def n_cols_def fsum_def
        y(1) yy over of_sign_def)
  from pearson_residuals_formula [OF r(3), of "Fin 100" "Some (Fin 1)" True 0]
  obtain R'' where R'': "fst (pearson_residuals ?Y (Fin 100) (Some (Fin 1)) True 0) = Inr R''"
    "R'' ! 0 ! 0 = clip_value (Fin (- 1)) (Fin 1)
        (fdiv (fsub (Fin x) (expected ?Y 0 0))
          (fsqrt (fadd (expected ?Y 0 0)
             (fdiv (fmul (expected ?Y 0 0) (expected ?Y 0 0)) (Fin 100)))))"
    by (auto simp: n_cols_def)
  have a3: "R'' ! 0 ! 0 = NaN"
    using R''(2) by (simp add: ey fsub_def clip_value_def of_sign_def)
  show ?thesis
    using r [unfolded x_def] R(1) R'(1) R''(1) [unfolded x_def] a1 a2 a3 by auto
qed

subsection \<open>The Poisson limit\<close>

text \<open>
  The expected values are float64 values, being quotients. Where the square of \<open>mu\<close> is
  in range, the term \<open>mu**2 / theta\<close> is zero for \<open>theta = +inf\<close>, and for a finite
  theta from \<open>2^56 * |mu|\<close> on it is at most \<open>2^-54 * |mu|\<close>, less than half a unit in
  the last place of \<open>mu\<close>: the sum \<open>mu + mu**2 / theta\<close> rounds to \<open>mu\<close>, or keeps the
  sign of a negative \<open>mu\<close>, of which the square root is NaN.
\<close>

lemma fdiv_NaN_right: "fdiv d NaN = NaN"
  by (cases d) simp_all

lemma fdiv_is_float: "fdiv x y = Fin a \<Longrightarrow> round64 a = Fin a"
  by (cases x; cases y) (auto simp: of_sign_def round64_idem split: if_splits)

lemma expected_is_float: "expected X i j = Fin a \<Longrightarrow> round64 a = Fin a"
  unfolding expected_def by (rule fdiv_is_float)

lemma residual_infinite_theta:
  assumes "fmul m m \<noteq> PInf" and "\<And>a. m = Fin a \<Longrightarrow> round64 a = Fin a"
  shows "residual PInf d m = fdiv d (fsqrt m)"
proof (cases m)
  case (Fin a)
  have "0 \<le> a * a" by simp
  from round64_nonneg [OF this] assms(1) Fin obtain b where "round64 (a * a) = Fin b"
    by auto
  then show ?thesis
    using Fin assms(2) by (simp add: residual_def)
next
  case NaN
  then show ?thesis by (simp add: residual_def fdiv_NaN_right)
next
  case NInf
  then show ?thesis using assms(1) by (simp add: of_sign_def)
next
  case PInf
  then show ?thesis using assms(1) by (simp add: of_sign_def)
qed

lemma residual_large_theta:
  assumes fl: "round64 a = Fin a" and sq: "fmul (Fin a) (Fin a) \<noteq> PInf"
    and t: "0 < t" "2 ^ 56 * \<bar>a\<bar> \<le> t"
  shows "fdiv (fmul (Fin a) (Fin a)) (Fin t) \<noteq> PInf"
    and "residual (Fin t) d (Fin a) = fdiv d (fsqrt (Fin a))"
proof -
  have a: "nearest64 a = a" "\<bar>a\<bar> < 2 powr 1024"
    using round64_Fin [OF fl] by simp_all
  have "0 \<le> a * a" by simp
  from round64_nonneg [OF this] sq obtain b where b: "round64 (a * a) = Fin b" "0 \<le> b"
    by auto
  have "b = nearest64 (a * a)"
    using round64_Fin [OF b(1)] by simp
  then have "b \<le> 2 * (a * a)"
    using nearest64_le_double [of "a * a"] by simp
  also have "\<dots> = 2 * \<bar>a\<bar> * \<bar>a\<bar>"
    by simp
  also have "\<dots> \<le> 2 * \<bar>a\<bar> * (t / 2 ^ 56)"
    using t(2) by (intro mult_left_mono) (simp_all add: field_simps)
  finally have "b \<le> \<bar>a\<bar> * t / 2 ^ 55"
    by (simp add: field_simps)
  then have "b / t \<le> (\<bar>a\<bar> * t / 2 ^ 55) / t"
    using t(1) by (intro divide_right_mono) simp_all
  also have "\<dots> = \<bar>a\<bar> / 2 ^ 55"
    using t(1) by simp
  finally have q: "b / t \<le> \<bar>a\<bar> / 2 ^ 55" .
  have q0: "0 \<le> b / t"
    using b(2) t(1) by simp
  have "nearest64 (b / t) \<le> 2 * (b / t)"
    using q0 by (rule nearest64_le_double)
  also have "\<dots> \<le> 2 * (\<bar>a\<bar> / 2 ^ 55)"
    using q by linarith
  also have "\<dots> = \<bar>a\<bar> / 2 ^ 54"
    by simp
  finally have n: "nearest64 (b / t) \<le> \<bar>a\<bar> / 2 ^ 54" "0 \<le> nearest64 (b / t)"
    using nearest64_nonneg [OF q0] by simp_all
  have "\<bar>a\<bar> / 2 ^ 54 \<le> \<bar>a\<bar>"
    by (simp add: field_simps)
  then have "\<bar>nearest64 (b / t)\<bar> < 2 powr 1024"
    using n a(2) by linarith
  then have u: "round64 (b / t) = Fin (nearest64 (b / t))"
    by (rule round64_finite)
  define u where "u = nearest64 (b / t)"
  have key: "fsqrt (round64 (a + u)) = fsqrt (Fin a)"
  proof -
    consider "a = 0" | "0 < a" | "a < 0" by linarith
    then show ?thesis
    proof cases
      case 1
      then have "u = 0" using n by (simp add: u_def)
      with 1 show ?thesis by simp
    next
      case 2
      have "\<bar>a\<bar> < 2 ^ 53 * ulp64 a"
        using exponent64_upper [of a] by (simp add: ulp64_times)
      then have "u < ulp64 a / 2"
        using n(1) 2 by (simp add: u_def field_simps)
      with fl 2 n(2) have "round64 (a + u) = Fin a"
        by (intro round64_absorb) (simp_all add: u_def)
      then show ?thesis by simp
    next
      case 3
      have "fsqrt (round64 (a + u)) = NaN"
      proof (cases "\<bar>a\<bar> \<le> 2 powr (- 1020)")
        case True
        have "(2::real) powr (- 1075) * 2 powr 55 = 2 powr (- 1075 + 55)"
          by (simp only: powr_add)
        then have e: "(2::real) powr (- 1020) / 2 ^ 55 = 2 powr (- 1075)"
          by simp
        have "\<bar>a\<bar> / 2 ^ 55 \<le> 2 powr (- 1020) / 2 ^ 55"
          using True by (intro divide_right_mono) simp_all
        then have "\<bar>b / t\<bar> \<le> 2 powr (- 1075)"
          using q q0 e by linarith
        then have "u = 0"
          unfolding u_def by (rule nearest64_tiny)
        then show ?thesis using fl 3 by simp
      next
        case False
        define x where "x = - a - u"
        have "u \<le> \<bar>a\<bar> / 2"
          using n(1) by (simp add: u_def field_simps)
        then have "\<bar>a\<bar> / 2 \<le> x"
          using 3 by (simp add: x_def)
        moreover have "(2::real) powr (- 1021) * 2 powr 1 = 2 powr (- 1021 + 1)"
          by (simp only: powr_add)
        then have "(2::real) powr (- 1020) / 2 = 2 powr (- 1021)"
          by simp
        moreover have "(2::real) powr of_int (- 1022) \<le> 2 powr (- 1021)"
          by (simp add: powr_mono)
        ultimately have "2 powr of_int (- 1022) \<le> x"
          using False by linarith
        then have "2 powr of_int (- 1022) \<le> nearest64 x"
          by (rule nearest64_ge_pow2) simp
        then have pos: "0 < nearest64 x"
          by (smt (verit) powr_gt_zero)
        have "round64 x = PInf \<or> round64 x = Fin (nearest64 x)"
          using pos by (simp add: round64_def Let_def)
        moreover have "- x = a + u"
          by (simp add: x_def)
        then have "round64 (a + u) = fneg (round64 x)"
          using round64_uminus [of x] by simp
        ultimately show ?thesis using pos by auto
      qed
      with 3 show ?thesis by simp
    qed
  qed
  show "fdiv (fmul (Fin a) (Fin a)) (Fin t) \<noteq> PInf"
    using b(1) u t(1) by simp
  show "residual (Fin t) d (Fin a) = fdiv d (fsqrt (Fin a))"
    using b(1) u key t(1) by (simp add: residual_def u_def)
qed

lemma residual_square_overflow:
  assumes "fmul (Fin a) (Fin a) = PInf" and "0 < t"
  shows "residual (Fin t) (Fin d) (Fin a) = Fin 0"
  using assms by (simp add: residual_def of_sign_def)


lemma term_in_range:
  assumes "fmul m m \<noteq> PInf" and "\<And>a. m = Fin a \<Longrightarrow> round64 a = Fin a"
    and "0 < t" and "2 ^ 56 * magnitude m \<le> t"
  shows "fdiv (fmul m m) (Fin t) \<noteq> PInf"
proof (cases m)
  case (Fin a)
  then show ?thesis
    using assms residual_large_theta(1) [of a t] by simp
next
  case NaN
  then show ?thesis by simp
next
  case NInf
  then show ?thesis using assms(1) by (simp add: of_sign_def)
next
  case PInf
  then show ?thesis using assms(1) by (simp add: of_sign_def)
qed

lemma residual_poisson:
  assumes "fmul m m \<noteq> PInf" and "\<And>a. m = Fin a \<Longrightarrow> round64 a = Fin a"
    and "theta = PInf \<or> (\<exists>t. theta = Fin t \<and> 0 < t \<and> 2 ^ 56 * magnitude m \<le> t)"
  shows "residual theta d m = fdiv d (fsqrt m)"
proof (cases "theta = PInf")
  case True
  then show ?thesis
    using assms(1,2) by (simp add: residual_infinite_theta)
next
  case False
  then obtain t where t: "theta = Fin t" "0 < t" "2 ^ 56 * magnitude m \<le> t"
    using assms(3) by auto
  show ?thesis
  proof (cases m)
    case (Fin a)
    then show ?thesis
      using assms(1,2) t by (simp add: residual_large_theta)
  next
    case NaN
    then show ?thesis by (simp add: residual_def fdiv_NaN_right)
  next
    case NInf
    then show ?thesis using assms(1) by (simp add: of_sign_def)
  next
    case PInf
    then show ?thesis using assms(1) by (simp add: of_sign_def)
  qed
qed

lemma residuals_entry:
  assumes "rectangular X" and "flt (Fin 0) theta"
    and "clip = None \<or> (\<exists>c. clip = Some c \<and> fle (Fin 0) c)"
    and "i < length X" and "j < n_cols X"
  shows "\<exists>R. fst (pearson_residuals X theta clip check_values copy) = Inr R
    \<and> R ! i ! j = clip_value (fneg (clip_bound X clip)) (clip_bound X clip)
          (residual theta (fsub (X ! i ! j) (expected X i j)) (expected X i j))"
proof -
  let ?mu = "map (map (\<lambda>p. fdiv p (fsum (axis_sum0 X)))) (matmul_col_row (axis_sum1 X) (axis_sum0 X))"
  let ?R = "clip_array (map2 (map2 (residual theta)) (map2 (map2 fsub) X ?mu) ?mu)
      (fneg (clip_bound X clip)) (clip_bound X clip)"
  have val: "fst (pearson_residuals X theta clip check_values copy) = Inr ?R"
    using assms(2,3) by (rule pearson_residuals_valid)
  have li: "length (X ! i) = n_cols X"
    using assms(1,4) by (simp add: rectangular_rows)
  have lm: "length (?mu ! i) = n_cols X"
    using assms(4) by (rule mu_shape)
  have e: "?mu ! i ! j = expected X i j"
    using assms(4,5) by (rule mu_entry)
  have "?R ! i ! j = clip_value (fneg (clip_bound X clip)) (clip_bound X clip)
          (residual theta (fsub (X ! i ! j) (expected X i j)) (expected X i j))"
    using assms(4,5) li lm e
    by (simp add: clip_array_def length_matmul_col_row length_axis_sum1)
  with val show ?thesis
    by blast
qed




subsection \<open>The data store under \<open>normalize_pearson_residuals\<close>\<close>

lemma view_to_actual_fields:
  "adata_X (fst (view_to_actual a)) = adata_X a"
  "layers (fst (view_to_actual a)) = layers a"
  "uns (fst (view_to_actual a)) = uns a"
  "is_view (fst (view_to_actual a)) = False"
  by (simp_all add: view_to_actual_def anndata_copy_def)

lemma get_obs_rep_view_to_actual:
  "get_obs_rep (fst (view_to_actual a)) layer = get_obs_rep a layer"
  by (cases layer) (simp_all add: get_obs_rep_def view_to_actual_fields)

lemma get_obs_rep_anndata_copy:
  "get_obs_rep (anndata_copy a) layer = get_obs_rep a layer"
  by (cases layer) (simp_all add: get_obs_rep_def anndata_copy_def)

lemma pearson_residuals_succeeds:
  assumes "flt (Fin 0) theta" and "clip = None \<or> (\<exists>c. clip = Some c \<and> fle (Fin 0) c)"
  shows "\<exists>R. fst (pearson_residuals X theta clip check_values copy) = Inr R"
  using pearson_residuals_valid [OF assms] by simp

lemma pearson_residuals_outcome_independent:
  "fst (pearson_residuals X theta clip check_values copy)
    = fst (pearson_residuals X theta clip check_values' copy')"
  by (simp add: pearson_residuals_def Let_def)

lemma adata0_facts:
  "(0::nat) < length [adata0]" "get_obs_rep ([adata0] ! 0) None = Inr [[Fin 3]]"
  "flt (Fin 0) (Fin 100)" "(None::float64 option) = None \<or> (\<exists>c. None = Some c \<and> fle (Fin 0) c)"
  by (simp_all add: adata0_def get_obs_rep_def)

text \<open>
  C5. With \<open>inplace=False\<close> (and \<open>copy=False\<close>), valid parameters and a layer that
  exists, \<open>normalize_pearson_residuals\<close> returns the results as a dictionary of its own and
  leaves the data store as it was: \<open>adata.X\<close>, the layers (the selected one among them)
  and \<open>adata.uns\<close> of the caller's object are unchanged, and so is every other object.
\<close>

theorem normalize_not_inplace_frame:
  assumes "adata < length h"
    and "get_obs_rep (h ! adata) layer = Inr X"
    and "flt (Fin 0) theta"
    and "clip = None \<or> (\<exists>c. clip = Some c \<and> fle (Fin 0) c)"
  shows "case normalize_pearson_residuals h adata theta clip check_values layer False False of
      (r, h', t) \<Rightarrow>
        (\<exists>R. fst (pearson_residuals X theta clip check_values (invert False)) = Inr R
           \<and> r = Inr (Ret_dict ((''X'', PyArray R) # settings_dict_of theta clip (computed_on_of layer))))
        \<and> length h' = length h
        \<and> adata_X (h' ! adata) = adata_X (h ! adata)
        \<and> layers (h' ! adata) = layers (h ! adata)
        \<and> uns (h' ! adata) = uns (h ! adata)
        \<and> (\<forall>r < length h. r \<noteq> adata \<longrightarrow> h' ! r = h ! r)"
proof -
  obtain R where R: "fst (pearson_residuals X theta clip check_values (invert False)) = Inr R"
    using pearson_residuals_succeeds [OF assms(3,4)] by blast
  obtain tp where tp: "pearson_residuals X theta clip check_values (invert False) = (Inr R, tp)"
    using R by (cases "pearson_residuals X theta clip check_values (invert False)") simp
  show ?thesis
    using assms(1,2) R tp
    by (simp add: normalize_pearson_residuals_def Let_def split_beta get_obs_rep_view_to_actual
        view_to_actual_fields)
qed

theorem normalize_not_inplace_frame_witness:
  "get_obs_rep ([adata0] ! 0) None = Inr [[Fin 3]] \<and> flt (Fin 0) (Fin 100)
   \<and> (\<exists>R. fst (pearson_residuals [[Fin 3]] (Fin 100) None True (invert False)) = Inr R
        \<and> fst (normalize_pearson_residuals [adata0] 0 (Fin 100) None True None False False)
          = Inr (Ret_dict ((''X'', PyArray R) # settings_dict_of (Fin 100) None ''adata.X'')))
   \<and> map adata_X
        (fst (snd (normalize_pearson_residuals [adata0] 0 (Fin 100) None True None False False)))
      = [adata_X adata0]
   \<and> map layers
        (fst (snd (normalize_pearson_residuals [adata0] 0 (Fin 100) None True None False False)))
      = [layers adata0]
   \<and> map uns
        (fst (snd (normalize_pearson_residuals [adata0] 0 (Fin 100) None True None False False)))
      = [uns adata0]"
  using normalize_not_inplace_frame [OF adata0_facts, of True] adata0_facts(2,3)
  by (auto simp: computed_on_of_def split_beta length_Suc_conv)

lemma get_obs_rep_written:
  "get_obs_rep ((set_obs_rep a R layer)\<lparr>uns := u\<rparr>) layer = Inr R"
  by (cases layer) (simp_all add: get_obs_rep_def set_obs_rep_def)

text \<open>
  C3. For valid parameters (a theta above zero, a valid clip, a layer that exists), the
  run with \<open>inplace=True\<close> (with or without \<open>copy\<close>) and the run with \<open>inplace=False\<close>
  produce the same values: the residual matrix \<open>R\<close> that the \<open>inplace=True\<close> run writes
  into \<open>adata.X\<close> or the selected layer is the \<open>X\<close> entry of the dictionary that the
  \<open>inplace=False\<close> run returns, and the settings \<open>S\<close> stored in \<open>adata.uns\<close> are the rest
  of that dictionary.
\<close>

theorem normalize_inplace_parity:
  assumes "adata < length h"
    and "get_obs_rep (h ! adata) layer = Inr X"
    and "flt (Fin 0) theta"
    and "clip = None \<or> (\<exists>c. clip = Some c \<and> fle (Fin 0) c)"
  shows "\<exists>R S.
      fst (pearson_residuals X theta clip check_values (invert False)) = Inr R
      \<and> fst (normalize_pearson_residuals h adata theta clip check_values layer False False)
        = Inr (Ret_dict ((''X'', PyArray R) # S))
      \<and> get_obs_rep
          (fst (snd (normalize_pearson_residuals h adata theta clip check_values layer True copy))
            ! (if copy then length h else adata)) layer = Inr R
      \<and> uns
          (fst (snd (normalize_pearson_residuals h adata theta clip check_values layer True copy))
            ! (if copy then length h else adata)) ''pearson_residuals_normalization''
          = Some (PyDict S)"
proof -
  obtain R where R: "fst (pearson_residuals X theta clip check_values c) = Inr R" for c
    using pearson_residuals_succeeds [OF assms(3,4), of X check_values 0]
      pearson_residuals_outcome_independent [of X theta clip check_values _ check_values 0]
    by metis
  have F: "fst (normalize_pearson_residuals h adata theta clip check_values layer False False)
        = Inr (Ret_dict ((''X'', PyArray R) # settings_dict_of theta clip (computed_on_of layer)))"
    using assms(1,2) R
    by (simp add: normalize_pearson_residuals_def Let_def split_beta get_obs_rep_view_to_actual)
  have T: "get_obs_rep
          (fst (snd (normalize_pearson_residuals h adata theta clip check_values layer True copy))
            ! (if copy then length h else adata)) layer = Inr R
      \<and> uns
          (fst (snd (normalize_pearson_residuals h adata theta clip check_values layer True copy))
            ! (if copy then length h else adata)) ''pearson_residuals_normalization''
          = Some (PyDict (settings_dict_of theta clip (computed_on_of layer)))"
    using assms(1,2) R
    by (cases copy)
      (simp_all add: normalize_pearson_residuals_def Let_def split_beta get_obs_rep_view_to_actual
        get_obs_rep_anndata_copy get_obs_rep_written)
  from R F T show ?thesis by blast
qed

theorem normalize_inplace_parity_witness:
  "get_obs_rep ([adata0] ! 0) None = Inr [[Fin 3]] \<and> flt (Fin 0) (Fin 100)
   \<and> (\<exists>R S.
      fst (pearson_residuals [[Fin 3]] (Fin 100) None True (invert False)) = Inr R
      \<and> fst (normalize_pearson_residuals [adata0] 0 (Fin 100) None True None False False)
        = Inr (Ret_dict ((''X'', PyArray R) # S))
      \<and> get_obs_rep
          (fst (snd (normalize_pearson_residuals [adata0] 0 (Fin 100) None True None True False)) ! 0)
          None = Inr R
      \<and> uns
          (fst (snd (normalize_pearson_residuals [adata0] 0 (Fin 100) None True None True False)) ! 0)
          ''pearson_residuals_normalization'' = Some (PyDict S))"
  using normalize_inplace_parity [OF adata0_facts, of True False] adata0_facts(2,3)
  by simp


lemma normalize_returns:
  assumes "adata < length h"
    and "get_obs_rep (h ! adata) layer = Inr X"
    and "flt (Fin 0) theta"
    and "clip = None \<or> (\<exists>c. clip = Some c \<and> fle (Fin 0) c)"
    and "\<not> (copy \<and> \<not> inplace)"
  shows "\<exists>R. fst (normalize_pearson_residuals h adata theta clip check_values layer inplace copy)
    = Inr (if copy then Ret_adata (length h)
           else if \<not> inplace then
             Ret_dict ((''X'', PyArray R) # settings_dict_of theta clip (computed_on_of layer))
           else Ret_None)"
proof -
  obtain R where R: "fst (pearson_residuals X theta clip check_values (invert inplace)) = Inr R"
    using pearson_residuals_succeeds [OF assms(3,4)] by blast
  have "fst (normalize_pearson_residuals h adata theta clip check_values layer inplace copy)
    = Inr (if copy then Ret_adata (length h)
           else if \<not> inplace then
             Ret_dict ((''X'', PyArray R) # settings_dict_of theta clip (computed_on_of layer))
           else Ret_None)"
    using assms(1,2,5) R
    by (cases copy)
      (simp_all add: normalize_pearson_residuals_def Let_def split_beta get_obs_rep_view_to_actual
        get_obs_rep_anndata_copy)
  then show ?thesis ..
qed

text \<open>
  C10, as stated, fails: with \<open>copy=True\<close> and \<open>inplace=False\<close> the call returns neither an
  AnnData object (though \<open>copy=True\<close>) nor a dictionary (though \<open>inplace=False\<close>); it
  raises.
\<close>

theorem normalize_return_value_counterexample:
  "normalize_pearson_residuals [adata0] 0 (Fin 100) None True None False True
    = (Inl copy_error, [adata0], [])"
  by (simp add: normalize_pearson_residuals_def)

text \<open>
  C10, amended. With \<open>copy=True\<close> and \<open>inplace=False\<close> the call raises the ValueError of
  the guard. With any other flags, valid parameters and a layer that exists, the call
  returns, and its value is determined by the flags: it is the reference to the copy if
  and only if \<open>copy=True\<close>, a dictionary with exactly the keys \<open>X\<close>, \<open>theta\<close>, \<open>clip\<close>,
  \<open>computed_on\<close> if and only if \<open>inplace=False\<close>, and \<open>None\<close> if and only if
  \<open>inplace=True\<close> and \<open>copy=False\<close>.
\<close>

theorem normalize_return_value:
  assumes "adata < length h"
    and "get_obs_rep (h ! adata) layer = Inr X"
    and "flt (Fin 0) theta"
    and "clip = None \<or> (\<exists>c. clip = Some c \<and> fle (Fin 0) c)"
  shows "(copy \<and> \<not> inplace \<longrightarrow>
        fst (normalize_pearson_residuals h adata theta clip check_values layer inplace copy)
          = Inl copy_error)
    \<and> (\<not> (copy \<and> \<not> inplace) \<longrightarrow>
        ((fst (normalize_pearson_residuals h adata theta clip check_values layer inplace copy)
            = Inr (Ret_adata (length h))) = copy)
        \<and> ((\<exists>d. fst (normalize_pearson_residuals h adata theta clip check_values layer inplace copy)
              = Inr (Ret_dict d)
            \<and> map fst d = [''X'', ''theta'', ''clip'', ''computed_on'']) = (\<not> inplace))
        \<and> ((fst (normalize_pearson_residuals h adata theta clip check_values layer inplace copy)
            = Inr Ret_None) = (inplace \<and> \<not> copy)))"
proof (intro conjI impI)
  assume "copy \<and> \<not> inplace"
  then show "fst (normalize_pearson_residuals h adata theta clip check_values layer inplace copy)
          = Inl copy_error"
    by (simp add: normalize_pearson_residuals_def)
next
  assume flags: "\<not> (copy \<and> \<not> inplace)"
  from normalize_returns [OF assms flags]
  obtain R where R: "fst (normalize_pearson_residuals h adata theta clip check_values layer inplace copy)
    = Inr (if copy then Ret_adata (length h)
           else if \<not> inplace then
             Ret_dict ((''X'', PyArray R) # settings_dict_of theta clip (computed_on_of layer))
           else Ret_None)"
    by blast
  show "(fst (normalize_pearson_residuals h adata theta clip check_values layer inplace copy)
            = Inr (Ret_adata (length h))) = copy"
    using R by simp
  show "(\<exists>d. fst (normalize_pearson_residuals h adata theta clip check_values layer inplace copy)
              = Inr (Ret_dict d)
            \<and> map fst d = [''X'', ''theta'', ''clip'', ''computed_on'']) = (\<not> inplace)"
    using R flags by (auto simp: settings_dict_of_def)
  show "(fst (normalize_pearson_residuals h adata theta clip check_values layer inplace copy)
            = Inr Ret_None) = (inplace \<and> \<not> copy)"
    using R by simp
qed

theorem normalize_return_value_witness:
  "fst (normalize_pearson_residuals [adata0] 0 (Fin 100) None True None True True)
      = Inr (Ret_adata 1)
   \<and> fst (normalize_pearson_residuals [adata0] 0 (Fin 100) None True None True False)
      = Inr Ret_None
   \<and> (\<exists>d. fst (normalize_pearson_residuals [adata0] 0 (Fin 100) None True None False False)
          = Inr (Ret_dict d)
        \<and> map fst d = [''X'', ''theta'', ''clip'', ''computed_on''])
   \<and> fst (normalize_pearson_residuals [adata0] 0 (Fin 100) None True None False True)
      = Inl copy_error"
  using normalize_return_value [OF adata0_facts, of True True True]
    normalize_return_value [OF adata0_facts, of False True True]
    normalize_return_value [OF adata0_facts, of False False True]
    normalize_return_value [OF adata0_facts, of True False True]
  by simp

text \<open>
  C4, as stated, fails: \<open>_pearson_residuals\<close> copies the matrix (its first statement)
  before it checks theta and the clip, so a call with an invalid parameter has taken a
  copy of the input matrix when the error is raised; so has \<open>normalize_pearson_residuals\<close>
  with \<open>inplace=False\<close>.
\<close>

theorem invalid_parameter_copy_counterexample:
  "pearson_residuals [[Fin 3]] (Fin 0) None True 1 = (Inl theta_error, [Copy_X])
   \<and> pearson_residuals [[Fin 3]] (Fin 100) (Some (Fin (- 1))) True 1 = (Inl clip_error, [Copy_X])
   \<and> normalize_pearson_residuals [adata0] 0 (Fin 0) None True None False False
     = (Inl theta_error, [adata0],
        [Info ''computing analytic Pearson residuals on adata.X'', Copy_X])"
  by (simp add: normalize_pearson_residuals_def adata0_def view_to_actual_def get_obs_rep_def
      computed_on_of_def pearson_residuals_def invert_def clip_bound_def)

lemma pearson_residuals_invalid:
  assumes "fle theta (Fin 0) \<or> (\<exists>c. clip = Some c \<and> flt c (Fin 0))"
  shows "pearson_residuals X theta clip check_values copy
    = (Inl (if fle theta (Fin 0) then theta_error else clip_error),
       if copy \<noteq> 0 then [Copy_X] else [])"
  using assms by (auto simp: pearson_residuals_def Let_def clip_bound_def)

lemma nth_list_update_any:
  "r < length h \<Longrightarrow> h[a := v] ! r = (if a = r then v else h ! r)"
  by (cases "a < length h") (auto simp: nth_list_update)

text \<open>
  C4, amended. For every call with \<open>theta <= 0\<close> or an explicit clip below zero,
  \<open>_pearson_residuals\<close> raises the parameter error having done nothing but the copy of
  \<open>X\<close> that it takes when its \<open>copy\<close> argument is set; and \<open>normalize_pearson_residuals\<close>
  raises an error before any pass over the matrix (value check, sums, residuals,
  clipping) and without the warning on the values, with \<open>adata.X\<close>, the layers and
  \<open>adata.uns\<close> of every object of the store as they were.
\<close>

theorem invalid_parameter_fails_first:
  assumes "fle theta (Fin 0) \<or> (\<exists>c. clip = Some c \<and> flt c (Fin 0))"
  shows "pearson_residuals X theta clip check_values copy
      = (Inl (if fle theta (Fin 0) then theta_error else clip_error),
         if copy \<noteq> 0 then [Copy_X] else [])
    \<and> (\<exists>e. fst (normalize_pearson_residuals h adata theta clip check_values layer inplace copy')
          = Inl e)
    \<and> (\<forall>s. Pass s \<notin> set (snd (snd
          (normalize_pearson_residuals h adata theta clip check_values layer inplace copy'))))
    \<and> Warn nonintegers_warning \<notin> set (snd (snd
          (normalize_pearson_residuals h adata theta clip check_values layer inplace copy')))
    \<and> (\<forall>r < length h.
          adata_X (fst (snd
            (normalize_pearson_residuals h adata theta clip check_values layer inplace copy')) ! r)
            = adata_X (h ! r)
        \<and> layers (fst (snd
            (normalize_pearson_residuals h adata theta clip check_values layer inplace copy')) ! r)
            = layers (h ! r)
        \<and> uns (fst (snd
            (normalize_pearson_residuals h adata theta clip check_values layer inplace copy')) ! r)
            = uns (h ! r))"
proof (intro conjI allI impI)
  show "pearson_residuals X theta clip check_values copy
      = (Inl (if fle theta (Fin 0) then theta_error else clip_error),
         if copy \<noteq> 0 then [Copy_X] else [])"
    using assms by (rule pearson_residuals_invalid)
  show "\<exists>e. fst (normalize_pearson_residuals h adata theta clip check_values layer inplace copy')
          = Inl e"
    by (simp add: normalize_pearson_residuals_def Let_def split_beta
        pearson_residuals_invalid [OF assms] split: sum.splits)
  fix s
  show "Pass s \<notin> set (snd (snd
          (normalize_pearson_residuals h adata theta clip check_values layer inplace copy')))"
    by (simp add: normalize_pearson_residuals_def Let_def split_beta view_to_actual_def
        pearson_residuals_invalid [OF assms] split: sum.splits)
  show "Warn nonintegers_warning \<notin> set (snd (snd
          (normalize_pearson_residuals h adata theta clip check_values layer inplace copy')))"
    by (simp add: normalize_pearson_residuals_def Let_def split_beta view_to_actual_def
        nonintegers_warning_def pearson_residuals_invalid [OF assms] split: sum.splits)
next
  fix r
  assume r: "r < length h"
  let ?h = "fst (snd (normalize_pearson_residuals h adata theta clip check_values layer inplace copy'))"
  have "?h ! r = h ! r \<or> ?h ! r = fst (view_to_actual (h ! r))"
    using r
    by (auto simp: normalize_pearson_residuals_def Let_def split_beta nth_append
        nth_list_update_any pearson_residuals_invalid [OF assms] split: sum.splits)
  then show "adata_X (?h ! r) = adata_X (h ! r)" "layers (?h ! r) = layers (h ! r)"
    "uns (?h ! r) = uns (h ! r)"
    by (auto simp: view_to_actual_fields)
qed

theorem invalid_parameter_fails_first_witness:
  "fle (Fin 0) (Fin 0)
   \<and> pearson_residuals [[Fin 3]] (Fin 0) None True 0 = (Inl theta_error, [])
   \<and> pearson_residuals [[Fin 3]] (Fin 0) None True 1 = (Inl theta_error, [Copy_X])
   \<and> pearson_residuals [[Fin 3]] PInf (Some (Fin (- 1))) True 0 = (Inl clip_error, [])
   \<and> (\<exists>e. fst (normalize_pearson_residuals [adata0] 0 (Fin 0) None True None True False) = Inl e)
   \<and> (\<forall>s. Pass s \<notin> set (snd (snd
          (normalize_pearson_residuals [adata0] 0 (Fin 0) None True None True False))))
   \<and> Warn nonintegers_warning \<notin> set (snd (snd
          (normalize_pearson_residuals [adata0] 0 (Fin 0) None True None True False)))
   \<and> adata_X (fst (snd
          (normalize_pearson_residuals [adata0] 0 (Fin 0) None True None True False)) ! 0)
       = adata_X adata0
   \<and> layers (fst (snd
          (normalize_pearson_residuals [adata0] 0 (Fin 0) None True None True False)) ! 0)
       = layers adata0
   \<and> uns (fst (snd
          (normalize_pearson_residuals [adata0] 0 (Fin 0) None True None True False)) ! 0)
       = uns adata0"
  using invalid_parameter_fails_first [of "Fin 0" None "[[Fin 3]]" True 0 "[adata0]" 0 None True False]
    invalid_parameter_fails_first [of "Fin 0" None "[[Fin 3]]" True 1 "[adata0]" 0 None True False]
    invalid_parameter_fails_first [of PInf "Some (Fin (- 1))" "[[Fin 3]]" True 0 "[adata0]" 0 None True False]
  by simp

subsection \<open>The settings record\<close>

lemma computed_on_of_cases:
  "computed_on_of None = ''adata.X''"
  "l \<noteq> [] \<Longrightarrow> computed_on_of (Some l) = l"
  "computed_on_of (Some []) = ''adata.X''"
  by (simp_all add: computed_on_of_def)

text \<open>
  C7 against the code, at a layer named by the empty string: the call succeeds, reads the
  layer (not \<open>adata.X\<close>, which stays as it was) and writes the residuals into it, but the
  settings record it stores has \<open>computed_on = "adata.X"\<close>, since the empty string counts
  as false in \<open>layer if layer else "adata.X"\<close>.
\<close>

theorem computed_on_empty_layer_name:
  "get_obs_rep adata1 (Some []) = Inr [[Fin 3]]
   \<and> fst (normalize_pearson_residuals [adata1] 0 (Fin 100) None True (Some []) True False)
       = Inr Ret_None
   \<and> map adata_X (fst (snd
         (normalize_pearson_residuals [adata1] 0 (Fin 100) None True (Some []) True False)))
       = [[[Fin 5]]]
   \<and> map (\<lambda>a. layers a [])
         (fst (snd (normalize_pearson_residuals [adata1] 0 (Fin 100) None True (Some []) True False)))
       = [Some [[Fin 0]]]
   \<and> map (\<lambda>a. uns a ''pearson_residuals_normalization'')
         (fst (snd (normalize_pearson_residuals [adata1] 0 (Fin 100) None True (Some []) True False)))
       = [Some (PyDict [(''theta'', PyFloat (Fin 100)), (''clip'', PyNone),
            (''computed_on'', PyStr ''adata.X'')])]"
  by (simp add: normalize_pearson_residuals_def adata1_def view_to_actual_def get_obs_rep_def
      set_obs_rep_def computed_on_of_def settings_dict_of_def Let_def split_beta
      pearson_residuals_three)


end
